theory Spec2Isabelle
  imports Main "HOL-Library.Multiset" "HOL-Library.Sublist"
begin

section \<open>Strings\<close>

text \<open>
  A Python \<open>str\<close> is modelled as a \<open>string\<close> holding its UTF-8 bytes. Equality,
  concatenation and every operation of the converters that looks for an ASCII character
  (\<open>replace(" ", "_")\<close>, \<open>split("=", 1)\<close>, \<open>startswith("#")\<close>, \<open>"=" in line\<close>) act
  on the bytes as they act on the code points, since no byte of a multi-byte UTF-8
  sequence is an ASCII byte.

  The Unicode-aware built-ins \<open>str.lower\<close>, \<open>str.upper\<close> and \<open>str.strip\<close> are not
  code of the repository; the model takes them as parameters, so every theorem below
  holds whatever these three functions are.
\<close>

record str_ops =
  str_lower :: "string \<Rightarrow> string"
  str_upper :: "string \<Rightarrow> string"
  str_strip :: "string \<Rightarrow> string"

text \<open>
  For evaluating the model at concrete inputs: the three built-ins on text made of ASCII
  characters only, where they agree with Python (letters \<open>A\<close>..\<open>Z\<close> and \<open>a\<close>..\<open>z\<close>
  are mapped onto each other, every other byte is kept; \<open>strip\<close> removes the ASCII
  whitespace characters at both ends).
\<close>

definition ascii_lower_char :: "char \<Rightarrow> char" where
  "ascii_lower_char c =
     (case map_of (zip ''ABCDEFGHIJKLMNOPQRSTUVWXYZ'' ''abcdefghijklmnopqrstuvwxyz'') c of
        None \<Rightarrow> c | Some d \<Rightarrow> d)"

definition ascii_upper_char :: "char \<Rightarrow> char" where
  "ascii_upper_char c =
     (case map_of (zip ''abcdefghijklmnopqrstuvwxyz'' ''ABCDEFGHIJKLMNOPQRSTUVWXYZ'') c of
        None \<Rightarrow> c | Some d \<Rightarrow> d)"

definition ascii_space :: "char \<Rightarrow> bool" where
  "ascii_space c =
     (c \<in> set [CHR 0x20, CHR 0x09, CHR 0x0A, CHR 0x0B, CHR 0x0C, CHR 0x0D,
                 CHR 0x1C, CHR 0x1D, CHR 0x1E, CHR 0x1F])"

definition ascii_strip :: "string \<Rightarrow> string" where
  "ascii_strip s = rev (dropWhile ascii_space (rev (dropWhile ascii_space s)))"

definition ascii_ops :: str_ops where
  "ascii_ops = \<lparr> str_lower = map ascii_lower_char,
                 str_upper = map ascii_upper_char,
                 str_strip = ascii_strip \<rparr>"

text \<open>\<open>s.replace(" ", "_")\<close>\<close>

definition replace_space :: "string \<Rightarrow> string" where
  "replace_space s = map (\<lambda>c. if c = CHR '' '' then CHR ''_'' else c) s"

text \<open>\<open>word.lower().replace(" ", "_")\<close>: the key under which both converters look a word up.\<close>

definition normalized_word :: "str_ops \<Rightarrow> string \<Rightarrow> string" where
  "normalized_word ops word = replace_space (str_lower ops word)"

section \<open>Tokens and buckets of the core converter\<close>

type_synonym token = "string \<times> string"

text \<open>The dictionary \<open>categories\<close> of \<open>_categorize_words\<close> (src/core): ten fixed keys.\<close>

record categories =
  subjects :: "token list"
  objects :: "token list"
  verbs :: "token list"
  adjectives :: "token list"
  adverbs :: "token list"
  numbers :: "token list"
  pronouns :: "token list"
  prepositions :: "token list"
  time_expressions :: "token list"
  others :: "token list"

definition empty_categories :: categories where
  "empty_categories = \<lparr> subjects = [], objects = [], verbs = [], adjectives = [],
     adverbs = [], numbers = [], pronouns = [], prepositions = [],
     time_expressions = [], others = [] \<rparr>"

text \<open>The set \<open>time_words\<close> of \<open>_is_time_expression\<close>, as UTF-8 bytes.\<close>

definition time_words :: "string list" where
  "time_words =
   [ ''h'' @ [CHR 0xC3, CHR 0xB4] @ ''m nay'',
     ''ng'' @ [CHR 0xC3, CHR 0xA0] @ ''y mai'',
     ''h'' @ [CHR 0xC3, CHR 0xB4] @ ''m qua'',
     ''tu'' @ [CHR 0xE1, CHR 0xBA, CHR 0xA7] @ ''n n'' @ [CHR 0xC3, CHR 0xA0] @ ''y'',
     ''th'' @ [CHR 0xC3, CHR 0xA1] @ ''ng n'' @ [CHR 0xC3, CHR 0xA0] @ ''y'',
     ''s'' @ [CHR 0xC3, CHR 0xA1] @ ''ng'',
     ''chi'' @ [CHR 0xE1, CHR 0xBB, CHR 0x81] @ ''u'',
     ''t'' @ [CHR 0xE1, CHR 0xBB, CHR 0x91] @ ''i'',
     [CHR 0xC4, CHR 0x91, CHR 0xC3, CHR 0xAA] @ ''m'',
     ''b'' @ [CHR 0xC3, CHR 0xA2] @ ''y gi'' @ [CHR 0xE1, CHR 0xBB, CHR 0x9D],
     ''l'' @ [CHR 0xC3, CHR 0xBA] @ ''c n'' @ [CHR 0xC3, CHR 0xA0] @ ''y'' ]"

definition is_time_expression :: "string \<Rightarrow> bool" where
  "is_time_expression word = (word \<in> set time_words)"

text \<open>
  One iteration of the loop of \<open>_categorize_words\<close> (src/core): the \<open>if\<close>/\<open>elif\<close> chain
  on the tag, each branch appending the token to one list.
\<close>

definition categorize_step :: "str_ops \<Rightarrow> categories \<Rightarrow> token \<Rightarrow> categories" where
  "categorize_step ops cs tok =
     (case tok of (word, pos) \<Rightarrow>
        let word_lower = str_lower ops word in
        if pos = ''PRON'' then cs\<lparr>pronouns := pronouns cs @ [(word, pos)]\<rparr>
        else if pos \<in> set [''NOUN'', ''PROPN''] then
          (if length (subjects cs) = 0 \<and> length (verbs cs) = 0
           then cs\<lparr>subjects := subjects cs @ [(word, pos)]\<rparr>
           else cs\<lparr>objects := objects cs @ [(word, pos)]\<rparr>)
        else if pos = ''VERB'' then cs\<lparr>verbs := verbs cs @ [(word, pos)]\<rparr>
        else if pos = ''ADJ'' then cs\<lparr>adjectives := adjectives cs @ [(word, pos)]\<rparr>
        else if pos = ''ADV'' then cs\<lparr>adverbs := adverbs cs @ [(word, pos)]\<rparr>
        else if pos = ''NUM'' then cs\<lparr>numbers := numbers cs @ [(word, pos)]\<rparr>
        else if pos = ''ADP'' then cs\<lparr>prepositions := prepositions cs @ [(word, pos)]\<rparr>
        else if is_time_expression word_lower
          then cs\<lparr>time_expressions := time_expressions cs @ [(word, pos)]\<rparr>
          else cs\<lparr>others := others cs @ [(word, pos)]\<rparr>)"

text \<open>The loop, from a given state of the buckets.\<close>

primrec categorize_from :: "str_ops \<Rightarrow> categories \<Rightarrow> token list \<Rightarrow> categories" where
  "categorize_from ops cs [] = cs"
| "categorize_from ops cs (tok # toks) = categorize_from ops (categorize_step ops cs tok) toks"

definition categorize_words :: "str_ops \<Rightarrow> token list \<Rightarrow> categories" where
  "categorize_words ops pos_tagged_words = categorize_from ops empty_categories pos_tagged_words"

text \<open>\<open>_reorder_for_sign_language\<close> (src/core): ten \<open>extend\<close> calls.\<close>

definition reorder_for_sign_language :: "categories \<Rightarrow> token list" where
  "reorder_for_sign_language cs =
     time_expressions cs @ pronouns cs @ subjects cs @ adjectives cs @ numbers cs @
     objects cs @ verbs cs @ adverbs cs @ prepositions cs @ others cs"

text \<open>
  The ten buckets under the names of the specification, and the list each one is in the
  dictionary \<open>categories\<close>.
\<close>

datatype bucket =
  Time | Pronoun | Subject | Adjective | Number | Object | Verb | Adverb | Preposition | Other

definition bucket_order :: "bucket list" where
  "bucket_order =
     [Time, Pronoun, Subject, Adjective, Number, Object, Verb, Adverb, Preposition, Other]"

fun get_bucket :: "bucket \<Rightarrow> categories \<Rightarrow> token list" where
  "get_bucket Time cs = time_expressions cs"
| "get_bucket Pronoun cs = pronouns cs"
| "get_bucket Subject cs = subjects cs"
| "get_bucket Adjective cs = adjectives cs"
| "get_bucket Number cs = numbers cs"
| "get_bucket Object cs = objects cs"
| "get_bucket Verb cs = verbs cs"
| "get_bucket Adverb cs = adverbs cs"
| "get_bucket Preposition cs = prepositions cs"
| "get_bucket Other cs = others cs"

text \<open>
  The bucket a token is assigned to, read off the code: the bucket whose list one
  iteration of the loop changes.
\<close>

definition bucket_of :: "str_ops \<Rightarrow> categories \<Rightarrow> token \<Rightarrow> bucket" where
  "bucket_of ops cs tok =
     (case find (\<lambda>b. get_bucket b (categorize_step ops cs tok) \<noteq> get_bucket b cs) bucket_order of
        Some b \<Rightarrow> b | None \<Rightarrow> Other)"

text \<open>The buckets assigned along the pass, one per token, in input order.\<close>

primrec bucket_trace_from :: "str_ops \<Rightarrow> categories \<Rightarrow> token list \<Rightarrow> bucket list" where
  "bucket_trace_from ops cs [] = []"
| "bucket_trace_from ops cs (tok # toks) =
     bucket_of ops cs tok # bucket_trace_from ops (categorize_step ops cs tok) toks"

definition bucket_trace :: "str_ops \<Rightarrow> token list \<Rightarrow> bucket list" where
  "bucket_trace ops toks = bucket_trace_from ops empty_categories toks"

text \<open>The tokens of a sequence that carry a given label, in their order in the sequence.\<close>

definition labelled :: "bucket \<Rightarrow> token list \<Rightarrow> bucket list \<Rightarrow> token list" where
  "labelled b toks ls = map fst (filter (\<lambda>(t, l). l = b) (zip toks ls))"

section \<open>The core converter\<close>

type_synonym dict = "string \<rightharpoonup> string"

record word_detail =
  index :: nat
  original_word :: string
  pos_tag :: string
  has_dictionary_definition :: bool
  dictionary_action :: string
  in_dictionary :: bool

text \<open>The body of the loop of \<open>_create_word_details\<close>; \<open>i\<close> is the index \<open>enumerate\<close> gives.\<close>

fun word_detail_of :: "str_ops \<Rightarrow> dict \<Rightarrow> nat \<Rightarrow> token \<Rightarrow> word_detail" where
  "word_detail_of ops basic_signs i (word, pos) =
     (let word_lower = str_lower ops word;
          normalized = replace_space word_lower
      in (case basic_signs normalized of
            Some dictionary_match \<Rightarrow>
              \<lparr> index = i + 1, original_word = word, pos_tag = pos,
                has_dictionary_definition = True,
                dictionary_action = dictionary_match,
                in_dictionary = True \<rparr>
          | None \<Rightarrow>
              \<lparr> index = i + 1, original_word = word, pos_tag = pos,
                has_dictionary_definition = False,
                dictionary_action = str_upper ops word @ ''['' @ pos @ '']'',
                in_dictionary = False \<rparr>))"

definition create_word_details :: "str_ops \<Rightarrow> dict \<Rightarrow> token list \<Rightarrow> word_detail list" where
  "create_word_details ops basic_signs pos_tagged_words =
     map (\<lambda>(i, tok). word_detail_of ops basic_signs i tok) (enumerate 0 pos_tagged_words)"

text \<open>
  The report of \<open>_create_analysis\<close> (src/core): the counts. Its constant descriptive
  strings (\<open>reorder_strategy\<close>) do not depend on the input and are left out.
\<close>

record analysis =
  word_count :: nat
  reordered_count :: nat
  count_subjects :: nat
  count_verbs :: nat
  count_objects :: nat
  count_adjectives :: nat
  count_time_expressions :: nat
  count_others :: nat
  conversion_applied :: bool

definition create_analysis :: "token list \<Rightarrow> categories \<Rightarrow> string list \<Rightarrow> analysis" where
  "create_analysis original_words categorized final_sequence =
     \<lparr> word_count = length original_words,
       reordered_count = length final_sequence,
       count_subjects = length (subjects categorized),
       count_verbs = length (verbs categorized),
       count_objects = length (objects categorized),
       count_adjectives = length (adjectives categorized),
       count_time_expressions = length (time_expressions categorized),
       count_others = length (others categorized),
       conversion_applied = True \<rparr>"

text \<open>\<open>" ".join(...)\<close>\<close>

fun join_space :: "string list \<Rightarrow> string" where
  "join_space [] = []"
| "join_space [w] = w"
| "join_space (w # ws) = w @ '' '' @ join_space ws"

text \<open>
  The dictionary that \<open>convert_to_sign_language\<close> returns, without its constant entry
  \<open>reorder_strategy\<close>.
\<close>

record conversion_result =
  original_sentence :: string
  sign_language_sequence :: "string list"
  structure_analysis :: analysis
  pos_analysis :: categories
  word_details :: "word_detail list"

text \<open>The state of the converter object that \<open>convert_to_sign_language\<close> reads.\<close>

record converter =
  is_initialized :: bool
  basic_signs :: dict

text \<open>The dictionary \<open>{"error": ...}\<close> that \<open>convert_to_sign_language\<close> returns.\<close>

datatype conversion_error = Not_Initialized

text \<open>
  \<open>convert_to_sign_language\<close> (src/core). The final sequence is the words of the
  reordered tokens: \<open>[word for word, _ in reordered_structure]\<close>.
\<close>

definition convert_to_sign_language ::
  "str_ops \<Rightarrow> converter \<Rightarrow> token list \<Rightarrow> conversion_error + conversion_result" where
  "convert_to_sign_language ops self pos_tagged_words =
     (if \<not> is_initialized self then Inl Not_Initialized
      else
        let categorized_words = categorize_words ops pos_tagged_words;
            reordered_structure = reorder_for_sign_language categorized_words;
            final_sequence = map fst reordered_structure;
            details = create_word_details ops (basic_signs self) pos_tagged_words;
            report = create_analysis pos_tagged_words categorized_words final_sequence
        in Inr \<lparr> original_sentence = join_space (map fst pos_tagged_words),
                 sign_language_sequence = final_sequence,
                 structure_analysis = report,
                 pos_analysis = categorized_words,
                 word_details = details \<rparr>)"

section \<open>Loading the dictionary\<close>

text \<open>
  What a loader finds at the path of the dictionary file: no file; a file whose reading
  raises an exception after the given lines were delivered (none, when opening it
  already fails); or a file read to its end, as its lines.
\<close>

datatype dict_source = Missing | Failing "string list" | Available "string list"

text \<open>\<open>_get_fallback_dictionary\<close> (src/core), keys and values as UTF-8 bytes.\<close>

definition get_fallback_dictionary :: dict where
  "get_fallback_dictionary =
   [ ''t'' @ [CHR 0xC3, CHR 0xB4] @ ''i'' \<mapsto> ''T'' @ [CHR 0xC3, CHR 0x94] @ ''I'',
     ''b'' @ [CHR 0xE1, CHR 0xBA, CHR 0xA1] @ ''n'' \<mapsto> ''B'' @ [CHR 0xE1, CHR 0xBA, CHR 0xA0] @ ''N'',
     ''h'' @ [CHR 0xE1, CHR 0xBB, CHR 0x8D] \<mapsto> ''H'' @ [CHR 0xE1, CHR 0xBB, CHR 0x8C],
     ''ch'' @ [CHR 0xC3, CHR 0xBA] @ ''ng t'' @ [CHR 0xC3, CHR 0xB4] @ ''i''
        \<mapsto> ''CH'' @ [CHR 0xC3, CHR 0x9A] @ ''NG-T'' @ [CHR 0xC3, CHR 0x94] @ ''I'',
     ''ch'' @ [CHR 0xC3, CHR 0xBA] @ ''ng ta'' \<mapsto> ''CH'' @ [CHR 0xC3, CHR 0x9A] @ ''NG-TA'',
     [CHR 0xC4, CHR 0x91] @ ''i'' \<mapsto> [CHR 0xC4, CHR 0x90] @ ''I'',
     [CHR 0xC4, CHR 0x83] @ ''n'' \<mapsto> [CHR 0xC4, CHR 0x82] @ ''N'',
     ''h'' @ [CHR 0xE1, CHR 0xBB, CHR 0x8D] @ ''c'' \<mapsto> ''H'' @ [CHR 0xE1, CHR 0xBB, CHR 0x8C] @ ''C'',
     ''l'' @ [CHR 0xC3, CHR 0xA0] @ ''m'' \<mapsto> ''L'' @ [CHR 0xC3, CHR 0x80] @ ''M'',
     ''n'' @ [CHR 0xC3, CHR 0xB3] @ ''i'' \<mapsto> ''N'' @ [CHR 0xC3, CHR 0x93] @ ''I'',
     ''m'' @ [CHR 0xE1, CHR 0xBB, CHR 0x99] @ ''t'' \<mapsto> ''1'',
     ''hai'' \<mapsto> ''2'',
     ''ba'' \<mapsto> ''3'',
     ''b'' @ [CHR 0xE1, CHR 0xBB, CHR 0x91] @ ''n'' \<mapsto> ''4'',
     ''n'' @ [CHR 0xC4, CHR 0x83] @ ''m'' \<mapsto> ''5'',
     ''kh'' @ [CHR 0xC3, CHR 0xB4] @ ''ng'' \<mapsto> ''KH'' @ [CHR 0xC3, CHR 0x94] @ ''NG'',
     ''c'' @ [CHR 0xC3, CHR 0xB3] \<mapsto> ''C'' @ [CHR 0xC3, CHR 0x93],
     ''r'' @ [CHR 0xE1, CHR 0xBA, CHR 0xA5] @ ''t'' \<mapsto> ''R'' @ [CHR 0xE1, CHR 0xBA, CHR 0xA4] @ ''T'',
     ''v'' @ [CHR 0xC3, CHR 0xA0] \<mapsto> ''V'' @ [CHR 0xC3, CHR 0x80] ]"

text \<open>\<open>line.split("=", 1)\<close> on a line that contains \<open>=\<close>: the two parts.\<close>

definition before_eq :: "string \<Rightarrow> string" where
  "before_eq line = takeWhile (\<lambda>c. c \<noteq> CHR ''='') line"

definition after_eq :: "string \<Rightarrow> string" where
  "after_eq line = drop 1 (dropWhile (\<lambda>c. c \<noteq> CHR ''='') line)"

text \<open>
  The body of the loop over the lines in \<open>_load_dictionary_from_file\<close> (src/core). With
  \<open>=\<close> in the line, \<open>split("=", 1)\<close> gives two parts, so the inner handler of
  \<open>ValueError\<close> is never entered.
\<close>

definition load_line :: "str_ops \<Rightarrow> dict \<Rightarrow> string \<Rightarrow> dict" where
  "load_line ops dictionary raw =
     (let line = str_strip ops raw in
      if line = [] \<or> take 1 line = ''#'' then dictionary
      else if CHR ''='' \<in> set line then
        (let vietnamese_word = str_lower ops (str_strip ops (before_eq line));
             sign_word = str_upper ops (str_strip ops (after_eq line))
         in if vietnamese_word \<noteq> [] \<and> sign_word \<noteq> []
            then dictionary(vietnamese_word \<mapsto> sign_word) else dictionary)
      else dictionary)"

text \<open>
  \<open>_load_dictionary_from_file\<close> (src/core): the fallback dictionary when the file does not
  exist, and when anything raises (what was read until then is dropped).
\<close>

definition load_dictionary_from_file :: "str_ops \<Rightarrow> dict_source \<Rightarrow> dict" where
  "load_dictionary_from_file ops src =
     (case src of
        Missing \<Rightarrow> get_fallback_dictionary
      | Failing ls \<Rightarrow> get_fallback_dictionary
      | Available ls \<Rightarrow> foldl (load_line ops) Map.empty ls)"

text \<open>\<open>__init__\<close> with \<open>_init_conversion_rules\<close> (src/core), first construction.\<close>

definition init_converter :: "str_ops \<Rightarrow> dict_source \<Rightarrow> converter" where
  "init_converter ops src =
     \<lparr> is_initialized = True, basic_signs = load_dictionary_from_file ops src \<rparr>"

text \<open>A key is reachable when it is the key some word is looked up under.\<close>

definition reachable :: "str_ops \<Rightarrow> string \<Rightarrow> bool" where
  "reachable ops key = (\<exists>word. normalized_word ops word = key)"

section \<open>The legacy converter (src/sign\_language\_converter.py)\<close>

text \<open>Its \<open>categories\<close> has nine keys: there is no list of time expressions.\<close>

record legacy_categories =
  legacy_subjects :: "token list"
  legacy_objects :: "token list"
  legacy_verbs :: "token list"
  legacy_adjectives :: "token list"
  legacy_adverbs :: "token list"
  legacy_numbers :: "token list"
  legacy_pronouns :: "token list"
  legacy_prepositions :: "token list"
  legacy_others :: "token list"

definition legacy_empty_categories :: legacy_categories where
  "legacy_empty_categories = \<lparr> legacy_subjects = [], legacy_objects = [], legacy_verbs = [],
     legacy_adjectives = [], legacy_adverbs = [], legacy_numbers = [], legacy_pronouns = [],
     legacy_prepositions = [], legacy_others = [] \<rparr>"

text \<open>
  One iteration of the loop of the legacy \<open>_categorize_words\<close>. It also computes
  \<open>word.lower()\<close>, which no branch reads.
\<close>

definition legacy_categorize_step :: "legacy_categories \<Rightarrow> token \<Rightarrow> legacy_categories" where
  "legacy_categorize_step cs tok =
     (case tok of (word, pos) \<Rightarrow>
        if pos = ''PRON'' then cs\<lparr>legacy_pronouns := legacy_pronouns cs @ [(word, pos)]\<rparr>
        else if pos \<in> set [''NOUN'', ''PROPN''] then
          (if length (legacy_subjects cs) = 0 \<and> length (legacy_verbs cs) = 0
           then cs\<lparr>legacy_subjects := legacy_subjects cs @ [(word, pos)]\<rparr>
           else cs\<lparr>legacy_objects := legacy_objects cs @ [(word, pos)]\<rparr>)
        else if pos = ''VERB'' then cs\<lparr>legacy_verbs := legacy_verbs cs @ [(word, pos)]\<rparr>
        else if pos = ''ADJ'' then cs\<lparr>legacy_adjectives := legacy_adjectives cs @ [(word, pos)]\<rparr>
        else if pos = ''ADV'' then cs\<lparr>legacy_adverbs := legacy_adverbs cs @ [(word, pos)]\<rparr>
        else if pos = ''NUM'' then cs\<lparr>legacy_numbers := legacy_numbers cs @ [(word, pos)]\<rparr>
        else if pos = ''ADP'' then cs\<lparr>legacy_prepositions := legacy_prepositions cs @ [(word, pos)]\<rparr>
        else cs\<lparr>legacy_others := legacy_others cs @ [(word, pos)]\<rparr>)"

primrec legacy_categorize_from :: "legacy_categories \<Rightarrow> token list \<Rightarrow> legacy_categories" where
  "legacy_categorize_from cs [] = cs"
| "legacy_categorize_from cs (tok # toks) =
     legacy_categorize_from (legacy_categorize_step cs tok) toks"

definition legacy_categorize_words :: "token list \<Rightarrow> legacy_categories" where
  "legacy_categorize_words pos_tagged_words =
     legacy_categorize_from legacy_empty_categories pos_tagged_words"

definition legacy_reorder_for_sign_language :: "legacy_categories \<Rightarrow> token list" where
  "legacy_reorder_for_sign_language cs =
     legacy_pronouns cs @ legacy_subjects cs @ legacy_adjectives cs @ legacy_numbers cs @
     legacy_objects cs @ legacy_verbs cs @ legacy_adverbs cs @ legacy_prepositions cs @
     legacy_others cs"

text \<open>The list a bucket of the specification is in the legacy \<open>categories\<close>; none for \<open>time\<close>.\<close>

fun legacy_get_bucket :: "bucket \<Rightarrow> legacy_categories \<Rightarrow> token list" where
  "legacy_get_bucket Time cs = []"
| "legacy_get_bucket Pronoun cs = legacy_pronouns cs"
| "legacy_get_bucket Subject cs = legacy_subjects cs"
| "legacy_get_bucket Adjective cs = legacy_adjectives cs"
| "legacy_get_bucket Number cs = legacy_numbers cs"
| "legacy_get_bucket Object cs = legacy_objects cs"
| "legacy_get_bucket Verb cs = legacy_verbs cs"
| "legacy_get_bucket Adverb cs = legacy_adverbs cs"
| "legacy_get_bucket Preposition cs = legacy_prepositions cs"
| "legacy_get_bucket Other cs = legacy_others cs"

definition legacy_bucket_of :: "legacy_categories \<Rightarrow> token \<Rightarrow> bucket" where
  "legacy_bucket_of cs tok =
     (case find (\<lambda>b. legacy_get_bucket b (legacy_categorize_step cs tok) \<noteq> legacy_get_bucket b cs)
             bucket_order of
        Some b \<Rightarrow> b | None \<Rightarrow> Other)"

primrec legacy_bucket_trace_from :: "legacy_categories \<Rightarrow> token list \<Rightarrow> bucket list" where
  "legacy_bucket_trace_from cs [] = []"
| "legacy_bucket_trace_from cs (tok # toks) =
     legacy_bucket_of cs tok # legacy_bucket_trace_from (legacy_categorize_step cs tok) toks"

definition legacy_bucket_trace :: "token list \<Rightarrow> bucket list" where
  "legacy_bucket_trace toks = legacy_bucket_trace_from legacy_empty_categories toks"

text \<open>The body of the loop of \<open>_convert_vocabulary\<close>, and the loop.\<close>

fun sign_of :: "str_ops \<Rightarrow> dict \<Rightarrow> token \<Rightarrow> string" where
  "sign_of ops sign_dictionary (word, pos) =
     (let word_lower = str_lower ops word;
          normalized = replace_space word_lower
      in (case sign_dictionary normalized of
            Some sign \<Rightarrow> sign
          | None \<Rightarrow> str_upper ops word))"

definition convert_vocabulary :: "str_ops \<Rightarrow> dict \<Rightarrow> token list \<Rightarrow> string list" where
  "convert_vocabulary ops sign_dictionary word_sequence =
     map (sign_of ops sign_dictionary) word_sequence"

record legacy_converter =
  legacy_is_initialized :: bool
  sign_dictionary :: dict

text \<open>
  The gloss sequence (\<open>sign_language_sequence\<close>) that the legacy
  \<open>convert_to_sign_language\<close> returns from an initialized converter.
\<close>

definition legacy_sign_sequence :: "str_ops \<Rightarrow> legacy_converter \<Rightarrow> token list \<Rightarrow> string list" where
  "legacy_sign_sequence ops self pos_tagged_words =
     convert_vocabulary ops (sign_dictionary self)
       (legacy_reorder_for_sign_language (legacy_categorize_words pos_tagged_words))"

text \<open>The body of the loop over the lines in the legacy \<open>_load_dictionary_from_file\<close>.\<close>

definition legacy_load_line :: "str_ops \<Rightarrow> dict \<Rightarrow> string \<Rightarrow> dict" where
  "legacy_load_line ops dictionary raw =
     (let line = str_strip ops raw in
      if line = [] \<or> take 1 line = ''#'' then dictionary
      else if CHR ''='' \<in> set line then
        (let vietnamese_word = str_strip ops (before_eq line);
             sign_word = str_strip ops (after_eq line)
         in if vietnamese_word \<noteq> [] \<and> sign_word \<noteq> []
            then dictionary(vietnamese_word \<mapsto> sign_word) else dictionary)
      else dictionary)"

text \<open>
  The legacy \<open>_load_dictionary_from_file\<close>: both handlers only print, and the dictionary
  filled so far is returned.
\<close>

definition legacy_load_dictionary_from_file :: "str_ops \<Rightarrow> dict_source \<Rightarrow> dict" where
  "legacy_load_dictionary_from_file ops src =
     (case src of
        Missing \<Rightarrow> Map.empty
      | Failing ls \<Rightarrow> foldl (legacy_load_line ops) Map.empty ls
      | Available ls \<Rightarrow> foldl (legacy_load_line ops) Map.empty ls)"

definition reload_dictionary :: "str_ops \<Rightarrow> legacy_converter \<Rightarrow> dict_source \<Rightarrow> legacy_converter" where
  "reload_dictionary ops self src =
     self\<lparr>sign_dictionary := legacy_load_dictionary_from_file ops src\<rparr>"

section \<open>Entry lines of the dictionary file\<close>

text \<open>
  What the loaders read in a line: the word before the first \<open>=\<close> and the sign after it,
  each stripped. A line is well formed when, stripped, it is not empty, does not begin
  with \<open>#\<close> and contains \<open>=\<close>. The core loader makes an entry of a well-formed line
  whose lowercased word and uppercased sign are not empty, the legacy loader of one whose
  word and sign are not empty.
\<close>

definition line_word :: "str_ops \<Rightarrow> string \<Rightarrow> string" where
  "line_word ops raw = str_strip ops (before_eq (str_strip ops raw))"

definition line_sign :: "str_ops \<Rightarrow> string \<Rightarrow> string" where
  "line_sign ops raw = str_strip ops (after_eq (str_strip ops raw))"

definition well_formed_line :: "str_ops \<Rightarrow> string \<Rightarrow> bool" where
  "well_formed_line ops raw =
     (str_strip ops raw \<noteq> [] \<and> take 1 (str_strip ops raw) \<noteq> ''#''
      \<and> CHR ''='' \<in> set (str_strip ops raw))"

definition core_entry_line :: "str_ops \<Rightarrow> string \<Rightarrow> bool" where
  "core_entry_line ops raw =
     (well_formed_line ops raw \<and> str_lower ops (line_word ops raw) \<noteq> []
      \<and> str_upper ops (line_sign ops raw) \<noteq> [])"

definition legacy_entry_line :: "str_ops \<Rightarrow> string \<Rightarrow> bool" where
  "legacy_entry_line ops raw =
     (well_formed_line ops raw \<and> line_word ops raw \<noteq> [] \<and> line_sign ops raw \<noteq> [])"

section \<open>Position relative to the first verb\<close>

text \<open>
  The position of the token at index \<open>i\<close> relative to the first token tagged \<open>VERB\<close>:
  before it, at it, or after it. In a sentence without a verb every token is before it.
\<close>

datatype verb_position = Before_First_Verb | At_First_Verb | After_First_Verb

definition first_verb_index :: "token list \<Rightarrow> nat" where
  "first_verb_index toks = length (takeWhile (\<lambda>t. snd t \<noteq> ''VERB'') toks)"

definition position_relative_to_first_verb :: "token list \<Rightarrow> nat \<Rightarrow> verb_position" where
  "position_relative_to_first_verb toks i =
     (if i < first_verb_index toks then Before_First_Verb
      else if i = first_verb_index toks then At_First_Verb
      else After_First_Verb)"

section \<open>Concrete inputs\<close>

text \<open>
  Sentences and dictionaries on which \<open>ascii_ops\<close> are Python's string operations: they
  are written with ASCII characters only, except for the first word of \<open>time_and_other\<close>,
  a lowercase word that \<open>str.lower\<close> leaves as it is, as \<open>ascii_ops\<close> does.
\<close>

definition example_sentence :: "token list" where
  "example_sentence = [(''Toi'', ''PRON''), (''an'', ''VERB''), (''com'', ''NOUN'')]"

definition two_proper_nouns :: "token list" where
  "two_proper_nouns = [(''Ha Noi'', ''PROPN''), (''Viet Nam'', ''PROPN'')]"

definition example_dictionary :: dict where
  "example_dictionary = [''toi'' \<mapsto> ''TOI'', ''com'' \<mapsto> ''COM'']"

definition example_converter :: converter where
  "example_converter = \<lparr> is_initialized = True, basic_signs = example_dictionary \<rparr>"

definition example_legacy_converter :: legacy_converter where
  "example_legacy_converter =
     \<lparr> legacy_is_initialized = True, sign_dictionary = example_dictionary \<rparr>"

definition time_and_other :: "token list" where
  "time_and_other = [(''s'' @ [CHR 0xC3, CHR 0xA1] @ ''ng'', ''X''), (''abc'', ''X'')]"

definition two_adverbs :: "token list" where
  "two_adverbs = [(''rat'', ''ADV''), (''dep'', ''ADJ''), (''lam'', ''ADV'')]"

text \<open>Dictionary files, each line ending with a newline.\<close>

definition comment_only_file :: "string list" where
  "comment_only_file = [''# signs'' @ [CHR 0x0A], [CHR 0x0A]]"

definition spaced_key_file :: "string list" where
  "spaced_key_file = [''chung toi = CHUNG-TOI'' @ [CHR 0x0A]]"

definition joined_key_file :: "string list" where
  "joined_key_file = [''chung_toi = CHUNG-TOI'' @ [CHR 0x0A]]"

definition capital_key_file :: "string list" where
  "capital_key_file = [''Toi = TOI'' @ [CHR 0x0A]]"

definition unknown_word_sentence :: "token list" where
  "unknown_word_sentence = [(''an'', ''VERB'')]"

section \<open>The pass over the tokens\<close>

lemma bucket_of_eq:
  "bucket_of ops cs (word, pos) =
     (if pos = ''PRON'' then Pronoun
      else if pos = ''NOUN'' \<or> pos = ''PROPN'' then
        (if subjects cs = [] \<and> verbs cs = [] then Subject else Object)
      else if pos = ''VERB'' then Verb
      else if pos = ''ADJ'' then Adjective
      else if pos = ''ADV'' then Adverb
      else if pos = ''NUM'' then Number
      else if pos = ''ADP'' then Preposition
      else if is_time_expression (str_lower ops word) then Time else Other)"
  by (simp add: bucket_of_def categorize_step_def bucket_order_def)

lemma step_bucket:
  "get_bucket b (categorize_step ops cs tok) =
     (if b = bucket_of ops cs tok then get_bucket b cs @ [tok] else get_bucket b cs)"
proof (cases tok)
  case (Pair word pos)
  show ?thesis
    unfolding Pair bucket_of_eq
    by (cases b) (simp_all add: categorize_step_def)
qed

lemma legacy_bucket_of_eq:
  "legacy_bucket_of cs (word, pos) =
     (if pos = ''PRON'' then Pronoun
      else if pos = ''NOUN'' \<or> pos = ''PROPN'' then
        (if legacy_subjects cs = [] \<and> legacy_verbs cs = [] then Subject else Object)
      else if pos = ''VERB'' then Verb
      else if pos = ''ADJ'' then Adjective
      else if pos = ''ADV'' then Adverb
      else if pos = ''NUM'' then Number
      else if pos = ''ADP'' then Preposition
      else Other)"
  by (simp add: legacy_bucket_of_def legacy_categorize_step_def bucket_order_def)

lemma legacy_step_bucket:
  "legacy_get_bucket b (legacy_categorize_step cs tok) =
     (if b = legacy_bucket_of cs tok then legacy_get_bucket b cs @ [tok] else legacy_get_bucket b cs)"
proof (cases tok)
  case (Pair word pos)
  show ?thesis
    unfolding Pair legacy_bucket_of_eq
    by (cases b) (simp_all add: legacy_categorize_step_def)
qed

lemma labelled_Nil: "labelled b [] ls = []"
  by (simp add: labelled_def)

lemma labelled_Cons:
  "labelled b (t # ts) (l # ls) = (if l = b then t # labelled b ts ls else labelled b ts ls)"
  by (simp add: labelled_def)

lemma length_bucket_trace_from: "length (bucket_trace_from ops cs toks) = length toks"
  by (induction toks arbitrary: cs) simp_all

lemma get_bucket_categorize_from:
  "get_bucket b (categorize_from ops cs toks) =
     get_bucket b cs @ labelled b toks (bucket_trace_from ops cs toks)"
  by (induction toks arbitrary: cs) (simp_all add: labelled_Nil labelled_Cons step_bucket)

lemma categorize_from_append:
  "categorize_from ops cs (xs @ ys) = categorize_from ops (categorize_from ops cs xs) ys"
  by (induction xs arbitrary: cs) simp_all

lemma bucket_trace_from_nth:
  "i < length toks \<Longrightarrow>
     bucket_trace_from ops cs toks ! i = bucket_of ops (categorize_from ops cs (take i toks)) (toks ! i)"
proof (induction toks arbitrary: cs i)
  case Nil
  then show ?case by simp
next
  case (Cons t ts)
  then show ?case by (cases i) simp_all
qed

lemma reorder_concat:
  "reorder_for_sign_language cs = concat (map (\<lambda>b. get_bucket b cs) bucket_order)"
  by (simp add: reorder_for_sign_language_def bucket_order_def)

lemma mset_reorder_step:
  "mset (reorder_for_sign_language (categorize_step ops cs tok)) =
     add_mset tok (mset (reorder_for_sign_language cs))"
  by (cases tok) (simp add: reorder_for_sign_language_def categorize_step_def)

lemma mset_reorder_categorize_from:
  "mset (reorder_for_sign_language (categorize_from ops cs toks)) =
     mset (reorder_for_sign_language cs) + mset toks"
  by (induction toks arbitrary: cs) (simp_all add: mset_reorder_step)

lemma reorder_empty: "reorder_for_sign_language empty_categories = []"
  by (simp add: reorder_for_sign_language_def empty_categories_def)

lemma get_bucket_empty: "get_bucket b empty_categories = []"
  by (cases b) (simp_all add: empty_categories_def)

lemma length_legacy_bucket_trace_from: "length (legacy_bucket_trace_from cs toks) = length toks"
  by (induction toks arbitrary: cs) simp_all

lemma legacy_get_bucket_categorize_from:
  "legacy_get_bucket b (legacy_categorize_from cs toks) =
     legacy_get_bucket b cs @ labelled b toks (legacy_bucket_trace_from cs toks)"
  by (induction toks arbitrary: cs) (simp_all add: labelled_Nil labelled_Cons legacy_step_bucket)

lemma legacy_bucket_trace_from_nth:
  "i < length toks \<Longrightarrow>
     legacy_bucket_trace_from cs toks ! i =
       legacy_bucket_of (legacy_categorize_from cs (take i toks)) (toks ! i)"
proof (induction toks arbitrary: cs i)
  case Nil
  then show ?case by simp
next
  case (Cons t ts)
  then show ?case by (cases i) simp_all
qed

lemma legacy_reorder_concat:
  "legacy_reorder_for_sign_language cs = concat (map (\<lambda>b. legacy_get_bucket b cs) bucket_order)"
  by (simp add: legacy_reorder_for_sign_language_def bucket_order_def)

lemma mset_legacy_reorder_step:
  "mset (legacy_reorder_for_sign_language (legacy_categorize_step cs tok)) =
     add_mset tok (mset (legacy_reorder_for_sign_language cs))"
  by (cases tok) (simp add: legacy_reorder_for_sign_language_def legacy_categorize_step_def)

lemma mset_legacy_reorder_categorize_from:
  "mset (legacy_reorder_for_sign_language (legacy_categorize_from cs toks)) =
     mset (legacy_reorder_for_sign_language cs) + mset toks"
  by (induction toks arbitrary: cs) (simp_all add: mset_legacy_reorder_step)

lemma legacy_reorder_empty: "legacy_reorder_for_sign_language legacy_empty_categories = []"
  by (simp add: legacy_reorder_for_sign_language_def legacy_empty_categories_def)

lemma legacy_get_bucket_empty: "legacy_get_bucket b legacy_empty_categories = []"
  by (cases b) (simp_all add: legacy_empty_categories_def)

lemma subseq_labelled: "length ls = length toks \<Longrightarrow> subseq (labelled b toks ls) toks"
proof (induction toks arbitrary: ls)
  case Nil
  then show ?case by (simp add: labelled_Nil)
next
  case (Cons t ts)
  then obtain l ls' where "ls = l # ls'" by (cases ls) auto
  with Cons show ?case by (auto simp add: labelled_Cons)
qed

lemma bucket_categorize_words:
  "get_bucket b (categorize_words ops toks) = labelled b toks (bucket_trace ops toks)"
  by (simp add: categorize_words_def bucket_trace_def get_bucket_categorize_from get_bucket_empty)

lemma legacy_bucket_categorize_words:
  "legacy_get_bucket b (legacy_categorize_words toks) = labelled b toks (legacy_bucket_trace toks)"
  by (simp add: legacy_categorize_words_def legacy_bucket_trace_def
      legacy_get_bucket_categorize_from legacy_get_bucket_empty)

lemma reorder_labelled:
  "reorder_for_sign_language (categorize_words ops toks) =
     concat (map (\<lambda>b. labelled b toks (bucket_trace ops toks)) bucket_order)"
  by (simp add: reorder_concat bucket_categorize_words)

lemma legacy_reorder_labelled:
  "legacy_reorder_for_sign_language (legacy_categorize_words toks) =
     concat (map (\<lambda>b. labelled b toks (legacy_bucket_trace toks)) bucket_order)"
  by (simp add: legacy_reorder_concat legacy_bucket_categorize_words)

lemma convert_cases:
  "convert_to_sign_language ops self toks =
     (if is_initialized self
      then Inr \<lparr> original_sentence = join_space (map fst toks),
                 sign_language_sequence =
                   map fst (reorder_for_sign_language (categorize_words ops toks)),
                 structure_analysis =
                   create_analysis toks (categorize_words ops toks)
                     (map fst (reorder_for_sign_language (categorize_words ops toks))),
                 pos_analysis = categorize_words ops toks,
                 word_details = create_word_details ops (basic_signs self) toks \<rparr>
      else Inl Not_Initialized)"
  by (simp add: convert_to_sign_language_def Let_def)

lemma one_bucket_step:
  "\<exists>!b. get_bucket b (categorize_step ops cs tok) = get_bucket b cs @ [tok]"
proof -
  have "get_bucket b (categorize_step ops cs tok) = get_bucket b cs @ [tok]
          \<longleftrightarrow> b = bucket_of ops cs tok" for b
    by (simp add: step_bucket)
  then show ?thesis by simp
qed

lemma legacy_one_bucket_step:
  "\<exists>!b. legacy_get_bucket b (legacy_categorize_step cs tok) = legacy_get_bucket b cs @ [tok]"
proof -
  have "legacy_get_bucket b (legacy_categorize_step cs tok) = legacy_get_bucket b cs @ [tok]
          \<longleftrightarrow> b = legacy_bucket_of cs tok" for b
    by (simp add: legacy_step_bucket)
  then show ?thesis by simp
qed

lemma mset_reorder_categorize_words:
  "mset (reorder_for_sign_language (categorize_words ops toks)) = mset toks"
  by (simp add: categorize_words_def mset_reorder_categorize_from reorder_empty)

lemma mset_legacy_reorder_categorize_words:
  "mset (legacy_reorder_for_sign_language (legacy_categorize_words toks)) = mset toks"
  by (simp add: legacy_categorize_words_def mset_legacy_reorder_categorize_from legacy_reorder_empty)

lemma length_reorder_categorize_words:
  "length (reorder_for_sign_language (categorize_words ops toks)) = length toks"
  using mset_reorder_categorize_words [of ops toks] by (metis size_mset)

lemma length_legacy_reorder_categorize_words:
  "length (legacy_reorder_for_sign_language (legacy_categorize_words toks)) = length toks"
  using mset_legacy_reorder_categorize_words [of toks] by (metis size_mset)

lemma bucket_sizes:
  "sum_list (map (\<lambda>b. length (get_bucket b cs)) bucket_order) =
     length (reorder_for_sign_language cs)"
  by (simp add: reorder_for_sign_language_def bucket_order_def)

lemma legacy_bucket_sizes:
  "sum_list (map (\<lambda>b. length (legacy_get_bucket b cs)) bucket_order) =
     length (legacy_reorder_for_sign_language cs)"
  by (simp add: legacy_reorder_for_sign_language_def bucket_order_def)

lemma example_categorized:
  "categorize_words ascii_ops example_sentence =
     empty_categories\<lparr> objects := [(''com'', ''NOUN'')], verbs := [(''an'', ''VERB'')],
                       pronouns := [(''Toi'', ''PRON'')] \<rparr>"
  by (simp add: categorize_words_def example_sentence_def categorize_step_def
      empty_categories_def)

lemma example_trace: "bucket_trace ascii_ops example_sentence = [Pronoun, Verb, Object]"
  by (simp add: bucket_trace_def example_sentence_def categorize_step_def
      empty_categories_def bucket_of_eq)

lemma example_legacy_categorized:
  "legacy_categorize_words example_sentence =
     legacy_empty_categories\<lparr> legacy_objects := [(''com'', ''NOUN'')],
       legacy_verbs := [(''an'', ''VERB'')], legacy_pronouns := [(''Toi'', ''PRON'')] \<rparr>"
  by (simp add: legacy_categorize_words_def example_sentence_def legacy_categorize_step_def
      legacy_empty_categories_def)

lemma example_legacy_trace: "legacy_bucket_trace example_sentence = [Pronoun, Verb, Object]"
  by (simp add: legacy_bucket_trace_def example_sentence_def legacy_categorize_step_def
      legacy_empty_categories_def legacy_bucket_of_eq)

lemma ascii_lower_examples:
  "str_lower ascii_ops ''Toi'' = ''toi''"
  "str_lower ascii_ops ''an'' = ''an''"
  "str_lower ascii_ops ''com'' = ''com''"
  by (simp_all add: ascii_ops_def ascii_lower_char_def)

lemma ascii_upper_examples:
  "str_upper ascii_ops ''Toi'' = ''TOI''"
  "str_upper ascii_ops ''an'' = ''AN''"
  "str_upper ascii_ops ''com'' = ''COM''"
  by (simp_all add: ascii_ops_def ascii_upper_char_def)

lemma example_legacy_sequence:
  "legacy_sign_sequence ascii_ops example_legacy_converter example_sentence =
     [''TOI'', ''COM'', ''AN'']"
  by (simp add: legacy_sign_sequence_def example_legacy_categorized
      legacy_reorder_for_sign_language_def legacy_empty_categories_def convert_vocabulary_def
      example_legacy_converter_def example_dictionary_def ascii_lower_examples
      ascii_upper_examples replace_space_def)

lemma example_core_sequence:
  "map_sum id sign_language_sequence
     (convert_to_sign_language ascii_ops example_converter example_sentence) =
     Inr [''Toi'', ''com'', ''an'']"
  by (simp add: convert_cases example_converter_def example_categorized
      reorder_for_sign_language_def empty_categories_def)

section \<open>Classification and reordering\<close>

text \<open>
  Claim C2. The reordered sequence is the concatenation of the buckets in the fixed order
  time, pronoun, subject, adjective, number, object, verb, adverb, preposition, other, and
  each bucket holds the tokens assigned to it in their input order: it is the input
  filtered by the bucket label of each position. The gloss sequence of the core converter
  is the words of that sequence, and the gloss sequence of the legacy converter its
  glosses. The legacy converter has no time bucket, which contributes nothing.
\<close>

theorem fixed_bucket_order:
  "(\<forall>b. get_bucket b (categorize_words ops toks) = labelled b toks (bucket_trace ops toks))
   \<and> (\<forall>b. subseq (get_bucket b (categorize_words ops toks)) toks)
   \<and> (\<forall>b. subseq (legacy_get_bucket b (legacy_categorize_words toks)) toks)
   \<and> length (bucket_trace ops toks) = length toks
   \<and> reorder_for_sign_language (categorize_words ops toks) =
       concat (map (\<lambda>b. get_bucket b (categorize_words ops toks)) bucket_order)
   \<and> (case convert_to_sign_language ops self toks of
         Inl e \<Rightarrow> \<not> is_initialized self
       | Inr r \<Rightarrow> sign_language_sequence r =
           concat (map (\<lambda>b. map fst (labelled b toks (bucket_trace ops toks))) bucket_order))
   \<and> (\<forall>b. legacy_get_bucket b (legacy_categorize_words toks) =
            labelled b toks (legacy_bucket_trace toks))
   \<and> length (legacy_bucket_trace toks) = length toks
   \<and> legacy_reorder_for_sign_language (legacy_categorize_words toks) =
       concat (map (\<lambda>b. legacy_get_bucket b (legacy_categorize_words toks)) bucket_order)
   \<and> legacy_sign_sequence ops old toks =
       concat (map (\<lambda>b. map (sign_of ops (sign_dictionary old))
                            (labelled b toks (legacy_bucket_trace toks))) bucket_order)"
proof -
  have core_seq: "case convert_to_sign_language ops self toks of
         Inl e \<Rightarrow> \<not> is_initialized self
       | Inr r \<Rightarrow> sign_language_sequence r =
           concat (map (\<lambda>b. map fst (labelled b toks (bucket_trace ops toks))) bucket_order)"
    by (simp add: convert_cases reorder_labelled map_concat comp_def)
  have legacy_seq: "legacy_sign_sequence ops old toks =
       concat (map (\<lambda>b. map (sign_of ops (sign_dictionary old))
                            (labelled b toks (legacy_bucket_trace toks))) bucket_order)"
    by (simp add: legacy_sign_sequence_def convert_vocabulary_def legacy_reorder_labelled
        map_concat comp_def)
  have core_len: "length (bucket_trace ops toks) = length toks"
    by (simp add: bucket_trace_def length_bucket_trace_from)
  have legacy_len: "length (legacy_bucket_trace toks) = length toks"
    by (simp add: legacy_bucket_trace_def length_legacy_bucket_trace_from)
  have core_sub: "subseq (get_bucket b (categorize_words ops toks)) toks" for b
    by (simp add: bucket_categorize_words subseq_labelled core_len)
  have legacy_sub: "subseq (legacy_get_bucket b (legacy_categorize_words toks)) toks" for b
    by (simp add: legacy_bucket_categorize_words subseq_labelled legacy_len)
  show ?thesis
    using core_seq legacy_seq core_len legacy_len core_sub legacy_sub
    by (simp add: bucket_categorize_words legacy_bucket_categorize_words reorder_concat
        legacy_reorder_concat)
qed

theorem fixed_bucket_order_witness:
  "reorder_for_sign_language (categorize_words ascii_ops example_sentence) =
     concat (map (\<lambda>b. get_bucket b (categorize_words ascii_ops example_sentence)) bucket_order)
   \<and> reorder_for_sign_language (categorize_words ascii_ops example_sentence) =
       [(''Toi'', ''PRON''), (''com'', ''NOUN''), (''an'', ''VERB'')]
   \<and> bucket_trace ascii_ops example_sentence = [Pronoun, Verb, Object]
   \<and> legacy_sign_sequence ascii_ops example_legacy_converter example_sentence =
       concat (map (\<lambda>b. map (sign_of ascii_ops (sign_dictionary example_legacy_converter))
                (labelled b example_sentence (legacy_bucket_trace example_sentence))) bucket_order)
   \<and> legacy_sign_sequence ascii_ops example_legacy_converter example_sentence =
       [''TOI'', ''COM'', ''AN'']"
proof -
  note inst = fixed_bucket_order [of ascii_ops example_sentence example_converter
      example_legacy_converter]
  have "reorder_for_sign_language (categorize_words ascii_ops example_sentence) =
       [(''Toi'', ''PRON''), (''com'', ''NOUN''), (''an'', ''VERB'')]"
    by (simp add: example_categorized reorder_for_sign_language_def empty_categories_def)
  with inst example_trace example_legacy_sequence show ?thesis by blast
qed

text \<open>
  Claim C3. Each step of the pass appends the token to exactly one bucket and leaves the
  other buckets as they are; the bucket sizes add up to the input length; the reordered
  sequence is a permutation of the input; and the gloss sequence is as long as the input.
  This holds for both converters and for every input, the empty one included.
\<close>

theorem every_token_in_one_bucket:
  "(\<forall>cs tok. \<exists>!b. get_bucket b (categorize_step ops cs tok) = get_bucket b cs @ [tok])
   \<and> (\<forall>cs tok b. get_bucket b (categorize_step ops cs tok) = get_bucket b cs @ [tok]
                 \<or> get_bucket b (categorize_step ops cs tok) = get_bucket b cs)
   \<and> sum_list (map (\<lambda>b. length (get_bucket b (categorize_words ops toks))) bucket_order) =
       length toks
   \<and> mset (reorder_for_sign_language (categorize_words ops toks)) = mset toks
   \<and> (case convert_to_sign_language ops self toks of
         Inl e \<Rightarrow> \<not> is_initialized self
       | Inr r \<Rightarrow> length (sign_language_sequence r) = length toks)
   \<and> (\<forall>cs tok. \<exists>!b. legacy_get_bucket b (legacy_categorize_step cs tok) =
                       legacy_get_bucket b cs @ [tok])
   \<and> (\<forall>cs tok b. legacy_get_bucket b (legacy_categorize_step cs tok) =
                     legacy_get_bucket b cs @ [tok]
                 \<or> legacy_get_bucket b (legacy_categorize_step cs tok) = legacy_get_bucket b cs)
   \<and> sum_list (map (\<lambda>b. length (legacy_get_bucket b (legacy_categorize_words toks)))
         bucket_order) = length toks
   \<and> mset (legacy_reorder_for_sign_language (legacy_categorize_words toks)) = mset toks
   \<and> length (legacy_sign_sequence ops old toks) = length toks"
proof -
  have a: "case convert_to_sign_language ops self toks of
         Inl e \<Rightarrow> \<not> is_initialized self
       | Inr r \<Rightarrow> length (sign_language_sequence r) = length toks"
    by (simp add: convert_cases length_reorder_categorize_words)
  have b: "length (legacy_sign_sequence ops old toks) = length toks"
    by (simp add: legacy_sign_sequence_def convert_vocabulary_def
        length_legacy_reorder_categorize_words)
  have c: "get_bucket b (categorize_step ops cs tok) = get_bucket b cs @ [tok]
            \<or> get_bucket b (categorize_step ops cs tok) = get_bucket b cs" for cs tok b
    by (simp add: step_bucket)
  have d: "legacy_get_bucket b (legacy_categorize_step cs tok) = legacy_get_bucket b cs @ [tok]
            \<or> legacy_get_bucket b (legacy_categorize_step cs tok) = legacy_get_bucket b cs"
    for cs tok b
    by (simp add: legacy_step_bucket)
  show ?thesis
    using a b c d one_bucket_step legacy_one_bucket_step
    by (simp add: bucket_sizes legacy_bucket_sizes length_reorder_categorize_words
        length_legacy_reorder_categorize_words mset_reorder_categorize_words
        mset_legacy_reorder_categorize_words)
qed

theorem every_token_in_one_bucket_witness:
  "sum_list (map (\<lambda>b. length (get_bucket b (categorize_words ascii_ops example_sentence)))
     bucket_order) = 3
   \<and> mset (reorder_for_sign_language (categorize_words ascii_ops example_sentence)) =
       mset example_sentence
   \<and> length (legacy_sign_sequence ascii_ops example_legacy_converter example_sentence) = 3
   \<and> (\<exists>!b. get_bucket b (categorize_step ascii_ops empty_categories (''Toi'', ''PRON'')) =
             get_bucket b empty_categories @ [(''Toi'', ''PRON'')])"
proof -
  note inst = every_token_in_one_bucket [of ascii_ops example_sentence example_converter
      example_legacy_converter]
  have len: "length example_sentence = 3" by (simp add: example_sentence_def)
  note one = inst [THEN conjunct1, THEN spec, THEN spec]
  note sizes = inst [THEN conjunct2, THEN conjunct2, THEN conjunct1]
  note perm = inst [THEN conjunct2, THEN conjunct2, THEN conjunct2, THEN conjunct1]
  note glosses = inst [THEN conjunct2, THEN conjunct2, THEN conjunct2, THEN conjunct2,
      THEN conjunct2, THEN conjunct2, THEN conjunct2, THEN conjunct2, THEN conjunct2]
  from sizes len have a: "sum_list (map (\<lambda>b. length (get_bucket b
      (categorize_words ascii_ops example_sentence))) bucket_order) = 3"
    by simp
  from glosses len have b:
    "length (legacy_sign_sequence ascii_ops example_legacy_converter example_sentence) = 3"
    by simp
  from a perm b one show ?thesis by (intro conjI)
qed

text \<open>
  Claim C4. In both converters the token at position \<open>i\<close>, when tagged \<open>NOUN\<close> or \<open>PROPN\<close>,
  goes to the subject bucket if the subject bucket and the verb bucket are both empty
  after the first \<open>i\<close> tokens, and to the object bucket otherwise. An input of two such
  tokens puts the first into subject and the second into object.
\<close>

theorem noun_subject_or_object:
  assumes "i < length toks"
    and "snd (toks ! i) = ''NOUN'' \<or> snd (toks ! i) = ''PROPN''"
  shows "(bucket_trace ops toks ! i =
            (if subjects (categorize_words ops (take i toks)) = []
                \<and> verbs (categorize_words ops (take i toks)) = []
             then Subject else Object))
       \<and> (legacy_bucket_trace toks ! i =
            (if legacy_subjects (legacy_categorize_words (take i toks)) = []
                \<and> legacy_verbs (legacy_categorize_words (take i toks)) = []
             then Subject else Object))
       \<and> (length toks = 2 \<and> (\<forall>t \<in> set toks. snd t = ''NOUN'' \<or> snd t = ''PROPN'') \<longrightarrow>
            bucket_trace ops toks = [Subject, Object]
            \<and> subjects (categorize_words ops toks) = [toks ! 0]
            \<and> objects (categorize_words ops toks) = [toks ! 1]
            \<and> legacy_bucket_trace toks = [Subject, Object]
            \<and> legacy_subjects (legacy_categorize_words toks) = [toks ! 0]
            \<and> legacy_objects (legacy_categorize_words toks) = [toks ! 1])"
proof -
  obtain word pos where tok: "toks ! i = (word, pos)" by (cases "toks ! i")
  with assms(2) have pos: "pos = ''NOUN'' \<or> pos = ''PROPN''" by simp
  have core: "bucket_trace ops toks ! i =
            (if subjects (categorize_words ops (take i toks)) = []
                \<and> verbs (categorize_words ops (take i toks)) = []
             then Subject else Object)"
    using assms(1) pos
    by (auto simp add: bucket_trace_def categorize_words_def bucket_trace_from_nth tok bucket_of_eq)
  have legacy: "legacy_bucket_trace toks ! i =
            (if legacy_subjects (legacy_categorize_words (take i toks)) = []
                \<and> legacy_verbs (legacy_categorize_words (take i toks)) = []
             then Subject else Object)"
    using assms(1) pos
    by (auto simp add: legacy_bucket_trace_def legacy_categorize_words_def
        legacy_bucket_trace_from_nth tok legacy_bucket_of_eq)
  have two: "bucket_trace ops toks = [Subject, Object]
            \<and> subjects (categorize_words ops toks) = [toks ! 0]
            \<and> objects (categorize_words ops toks) = [toks ! 1]
            \<and> legacy_bucket_trace toks = [Subject, Object]
            \<and> legacy_subjects (legacy_categorize_words toks) = [toks ! 0]
            \<and> legacy_objects (legacy_categorize_words toks) = [toks ! 1]"
    if len: "length toks = 2" and all: "\<forall>t \<in> set toks. snd t = ''NOUN'' \<or> snd t = ''PROPN''"
  proof -
    from len obtain t1 t2 where toks: "toks = [t1, t2]"
      by (cases toks; cases "tl toks") auto
    obtain w1 p1 w2 p2 where t: "t1 = (w1, p1)" "t2 = (w2, p2)"
      by (cases t1; cases t2) auto
    from all have p: "p1 = ''NOUN'' \<or> p1 = ''PROPN''" "p2 = ''NOUN'' \<or> p2 = ''PROPN''"
      by (simp_all add: toks t)
    have s1: "categorize_step ops empty_categories (w1, p1) =
                empty_categories\<lparr>subjects := [(w1, p1)]\<rparr>"
      using p(1) by (auto simp add: categorize_step_def empty_categories_def)
    have s2: "categorize_step ops (empty_categories\<lparr>subjects := [(w1, p1)]\<rparr>) (w2, p2) =
                empty_categories\<lparr>subjects := [(w1, p1)], objects := [(w2, p2)]\<rparr>"
      using p(2) by (auto simp add: categorize_step_def empty_categories_def)
    have l1: "legacy_categorize_step legacy_empty_categories (w1, p1) =
                legacy_empty_categories\<lparr>legacy_subjects := [(w1, p1)]\<rparr>"
      using p(1) by (auto simp add: legacy_categorize_step_def legacy_empty_categories_def)
    have l2: "legacy_categorize_step (legacy_empty_categories\<lparr>legacy_subjects := [(w1, p1)]\<rparr>)
                (w2, p2) =
                legacy_empty_categories\<lparr>legacy_subjects := [(w1, p1)],
                  legacy_objects := [(w2, p2)]\<rparr>"
      using p(2) by (auto simp add: legacy_categorize_step_def legacy_empty_categories_def)
    have b1: "bucket_of ops empty_categories (w1, p1) = Subject"
      using p(1) by (auto simp add: bucket_of_eq empty_categories_def)
    have b2: "bucket_of ops (empty_categories\<lparr>subjects := [(w1, p1)]\<rparr>) (w2, p2) = Object"
      using p(2) by (auto simp add: bucket_of_eq)
    have c1: "legacy_bucket_of legacy_empty_categories (w1, p1) = Subject"
      using p(1) by (auto simp add: legacy_bucket_of_eq legacy_empty_categories_def)
    have c2: "legacy_bucket_of (legacy_empty_categories\<lparr>legacy_subjects := [(w1, p1)]\<rparr>)
                (w2, p2) = Object"
      using p(2) by (auto simp add: legacy_bucket_of_eq)
    show ?thesis
      by (simp add: toks t bucket_trace_def categorize_words_def legacy_bucket_trace_def
          legacy_categorize_words_def s1 s2 l1 l2 b1 b2 c1 c2)
  qed
  from core legacy two show ?thesis by blast
qed

theorem noun_subject_or_object_witness:
  "1 < length two_proper_nouns
   \<and> snd (two_proper_nouns ! 1) = ''PROPN''
   \<and> bucket_trace ascii_ops two_proper_nouns = [Subject, Object]
   \<and> subjects (categorize_words ascii_ops two_proper_nouns) = [(''Ha Noi'', ''PROPN'')]
   \<and> objects (categorize_words ascii_ops two_proper_nouns) = [(''Viet Nam'', ''PROPN'')]
   \<and> legacy_bucket_trace two_proper_nouns = [Subject, Object]"
proof -
  have h1: "1 < length two_proper_nouns" by (simp add: two_proper_nouns_def)
  have h2: "snd (two_proper_nouns ! 1) = ''NOUN'' \<or> snd (two_proper_nouns ! 1) = ''PROPN''"
    by (simp add: two_proper_nouns_def)
  have h3: "length two_proper_nouns = 2
      \<and> (\<forall>t \<in> set two_proper_nouns. snd t = ''NOUN'' \<or> snd t = ''PROPN'')"
    by (simp add: two_proper_nouns_def)
  have h4: "two_proper_nouns ! 0 = (''Ha Noi'', ''PROPN'')"
    "two_proper_nouns ! 1 = (''Viet Nam'', ''PROPN'')"
    by (simp_all add: two_proper_nouns_def)
  from noun_subject_or_object [OF h1 h2, of ascii_ops] h3
  have "bucket_trace ascii_ops two_proper_nouns = [Subject, Object]
      \<and> subjects (categorize_words ascii_ops two_proper_nouns) = [two_proper_nouns ! 0]
      \<and> objects (categorize_words ascii_ops two_proper_nouns) = [two_proper_nouns ! 1]
      \<and> legacy_bucket_trace two_proper_nouns = [Subject, Object]"
    by blast
  with h1 h4 show ?thesis by simp
qed

section \<open>What the bucket of a token depends on\<close>

lemma verbs_categorize_from:
  "verbs (categorize_from ops cs toks) = verbs cs @ filter (\<lambda>t. snd t = ''VERB'') toks"
proof (induction toks arbitrary: cs)
  case Nil
  then show ?case by simp
next
  case (Cons t ts)
  obtain word pos where t: "t = (word, pos)" by (cases t)
  have "verbs (categorize_step ops cs (word, pos)) =
          verbs cs @ (if pos = ''VERB'' then [(word, pos)] else [])"
    by (simp add: categorize_step_def)
  with Cons show ?case by (simp add: t)
qed

lemma filter_take_empty:
  "i \<le> length xs \<Longrightarrow>
     filter P (take i xs) = [] \<longleftrightarrow> i \<le> length (takeWhile (\<lambda>x. \<not> P x) xs)"
proof (induction xs arbitrary: i)
  case Nil
  then show ?case by simp
next
  case (Cons x xs)
  then show ?case by (cases i) auto
qed

lemma verbs_empty_iff:
  assumes "i \<le> length toks"
  shows "verbs (categorize_words ops (take i toks)) = [] \<longleftrightarrow> i \<le> first_verb_index toks"
proof -
  have "verbs (categorize_words ops (take i toks)) =
          filter (\<lambda>t. snd t = ''VERB'') (take i toks)"
    by (simp add: categorize_words_def verbs_categorize_from empty_categories_def)
  with filter_take_empty [OF assms, of "\<lambda>t. snd t = ''VERB''"] show ?thesis
    by (simp add: first_verb_index_def)
qed

lemma same_position_same_side:
  "position_relative_to_first_verb toks i = position_relative_to_first_verb toks j \<Longrightarrow>
     i \<le> first_verb_index toks \<longleftrightarrow> j \<le> first_verb_index toks"
  by (auto simp add: position_relative_to_first_verb_def split: if_splits)

lemma bucket_trace_nth:
  "i < length toks \<Longrightarrow>
     bucket_trace ops toks ! i = bucket_of ops (categorize_words ops (take i toks)) (toks ! i)"
  by (simp add: bucket_trace_def categorize_words_def bucket_trace_from_nth)

lemma bucket_of_depends:
  assumes "snd t = snd t'"
    and "is_time_expression (str_lower ops (fst t)) = is_time_expression (str_lower ops (fst t'))"
    and "(subjects cs = []) = (subjects cs' = [])"
    and "(verbs cs = []) = (verbs cs' = [])"
  shows "bucket_of ops cs t = bucket_of ops cs' t'"
proof -
  obtain w p w' p' where t: "t = (w, p)" "t' = (w', p')" by (cases t; cases t') auto
  from assms show ?thesis by (simp add: t bucket_of_eq)
qed

lemma two_proper_nouns_trace: "bucket_trace ascii_ops two_proper_nouns = [Subject, Object]"
  by (simp add: bucket_trace_def two_proper_nouns_def bucket_of_eq categorize_step_def
      empty_categories_def)

lemma ascii_lower_time_examples:
  "str_lower ascii_ops (''s'' @ [CHR 0xC3, CHR 0xA1] @ ''ng'') = ''s'' @ [CHR 0xC3, CHR 0xA1] @ ''ng''"
  "str_lower ascii_ops ''abc'' = ''abc''"
  by (simp_all add: ascii_ops_def ascii_lower_char_def)

lemma time_and_other_trace: "bucket_trace ascii_ops time_and_other = [Time, Other]"
proof -
  have a: "is_time_expression (''s'' @ [CHR 0xC3, CHR 0xA1] @ ''ng'')"
    by (simp add: is_time_expression_def time_words_def)
  have b: "\<not> is_time_expression ''abc''"
    by (simp add: is_time_expression_def time_words_def)
  have c: "bucket_of ascii_ops cs (''s'' @ [CHR 0xC3, CHR 0xA1] @ ''ng'', ''X'') = Time" for cs
    using a ascii_lower_time_examples(1) by (simp add: bucket_of_eq)
  have d: "bucket_of ascii_ops cs (''abc'', ''X'') = Other" for cs
    using b ascii_lower_time_examples(2) by (simp add: bucket_of_eq)
  show ?thesis
    using c d by (simp add: bucket_trace_def time_and_other_def)
qed

text \<open>
  Claim C5, as stated, fails: the bucket is not a function of the tag and the position
  relative to the first verb. In \<open>two_proper_nouns\<close> both tokens are tagged \<open>PROPN\<close> and
  both are before the first verb (there is none), and the first goes to subject, the
  second to object. In \<open>time_and_other\<close> both tokens are tagged \<open>X\<close> and both are before
  the first verb, and the first goes to time, the second to other.
\<close>

theorem tag_and_verb_position_counterexample:
  "snd (two_proper_nouns ! 0) = snd (two_proper_nouns ! 1)
   \<and> position_relative_to_first_verb two_proper_nouns 0 =
       position_relative_to_first_verb two_proper_nouns 1
   \<and> bucket_trace ascii_ops two_proper_nouns ! 0 \<noteq> bucket_trace ascii_ops two_proper_nouns ! 1
   \<and> snd (time_and_other ! 0) = snd (time_and_other ! 1)
   \<and> position_relative_to_first_verb time_and_other 0 =
       position_relative_to_first_verb time_and_other 1
   \<and> bucket_trace ascii_ops time_and_other ! 0 \<noteq> bucket_trace ascii_ops time_and_other ! 1"
proof -
  have "snd (two_proper_nouns ! 0) = snd (two_proper_nouns ! 1)"
    by (simp add: two_proper_nouns_def)
  moreover have "position_relative_to_first_verb two_proper_nouns 0 =
       position_relative_to_first_verb two_proper_nouns 1"
    by (simp add: two_proper_nouns_def position_relative_to_first_verb_def first_verb_index_def)
  moreover have "snd (time_and_other ! 0) = snd (time_and_other ! 1)"
    by (simp add: time_and_other_def)
  moreover have "position_relative_to_first_verb time_and_other 0 =
       position_relative_to_first_verb time_and_other 1"
    by (simp add: time_and_other_def position_relative_to_first_verb_def first_verb_index_def)
  ultimately show ?thesis
    by (simp add: two_proper_nouns_trace time_and_other_trace)
qed

text \<open>
  Claim C5, amended. In the core converter the bucket of a token is a total, deterministic
  function of its tag, its position relative to the first verb, whether the subject bucket
  is empty when the token is reached, and whether its lowercased word is a time
  expression: every token gets a bucket, and two tokens of one input that agree on these
  four get the same bucket.
\<close>

theorem bucket_function_of_tag_position_subject_time:
  assumes "i < length toks" and "j < length toks"
    and "snd (toks ! i) = snd (toks ! j)"
    and "position_relative_to_first_verb toks i = position_relative_to_first_verb toks j"
    and "(subjects (categorize_words ops (take i toks)) = []) =
         (subjects (categorize_words ops (take j toks)) = [])"
    and "is_time_expression (str_lower ops (fst (toks ! i))) =
         is_time_expression (str_lower ops (fst (toks ! j)))"
  shows "length (bucket_trace ops toks) = length toks
       \<and> bucket_trace ops toks ! i = bucket_trace ops toks ! j"
proof -
  have v: "(verbs (categorize_words ops (take i toks)) = []) =
           (verbs (categorize_words ops (take j toks)) = [])"
    using assms(1,2) same_position_same_side [OF assms(4)]
    by (simp add: verbs_empty_iff)
  have "bucket_of ops (categorize_words ops (take i toks)) (toks ! i) =
        bucket_of ops (categorize_words ops (take j toks)) (toks ! j)"
    by (rule bucket_of_depends [OF assms(3) assms(6) assms(5) v])
  with assms(1,2) have "bucket_trace ops toks ! i = bucket_trace ops toks ! j"
    by (simp add: bucket_trace_nth)
  moreover have "length (bucket_trace ops toks) = length toks"
    by (simp add: bucket_trace_def length_bucket_trace_from)
  ultimately show ?thesis by simp
qed

theorem bucket_function_of_tag_position_subject_time_witness:
  "0 < length two_adverbs \<and> 2 < length two_adverbs
   \<and> snd (two_adverbs ! 0) = snd (two_adverbs ! 2)
   \<and> position_relative_to_first_verb two_adverbs 0 = position_relative_to_first_verb two_adverbs 2
   \<and> bucket_trace ascii_ops two_adverbs ! 0 = bucket_trace ascii_ops two_adverbs ! 2
   \<and> bucket_trace ascii_ops two_adverbs ! 2 = Adverb"
proof -
  have h1: "0 < length two_adverbs" and h2: "2 < length two_adverbs"
    by (simp_all add: two_adverbs_def)
  have h3: "snd (two_adverbs ! 0) = snd (two_adverbs ! 2)"
    by (simp add: two_adverbs_def)
  have h4: "position_relative_to_first_verb two_adverbs 0 =
            position_relative_to_first_verb two_adverbs 2"
    by (simp add: two_adverbs_def position_relative_to_first_verb_def first_verb_index_def)
  have h5: "(subjects (categorize_words ascii_ops (take 0 two_adverbs)) = []) =
            (subjects (categorize_words ascii_ops (take 2 two_adverbs)) = [])"
    by (simp add: two_adverbs_def categorize_words_def categorize_step_def
        empty_categories_def numeral_2_eq_2)
  have l: "str_lower ascii_ops ''rat'' = ''rat''" "str_lower ascii_ops ''lam'' = ''lam''"
    by (simp_all add: ascii_ops_def ascii_lower_char_def)
  have h6: "is_time_expression (str_lower ascii_ops (fst (two_adverbs ! 0))) =
            is_time_expression (str_lower ascii_ops (fst (two_adverbs ! 2)))"
    by (simp add: two_adverbs_def l is_time_expression_def time_words_def)
  have "bucket_trace ascii_ops two_adverbs = [Adverb, Adjective, Adverb]"
    by (simp add: bucket_trace_def two_adverbs_def bucket_of_eq)
  then have b: "bucket_trace ascii_ops two_adverbs ! 2 = Adverb"
    by simp
  from bucket_function_of_tag_position_subject_time [OF h1 h2 h3 h4 h5 h6] h1 h2 h3 h4 b
  show ?thesis by simp
qed

section \<open>Vocabulary substitution and the conversion result\<close>

lemma sign_of_eq:
  "sign_of ops d (word, pos) =
     (case d (normalized_word ops word) of Some gloss \<Rightarrow> gloss | None \<Rightarrow> str_upper ops word)"
  by (simp add: normalized_word_def)

lemma word_detail_hit:
  "d (normalized_word ops word) = Some gloss \<Longrightarrow>
     word_detail_of ops d i (word, pos) =
       \<lparr> index = i + 1, original_word = word, pos_tag = pos,
         has_dictionary_definition = True, dictionary_action = gloss, in_dictionary = True \<rparr>"
  by (simp add: normalized_word_def)

lemma word_detail_miss:
  "d (normalized_word ops word) = None \<Longrightarrow>
     word_detail_of ops d i (word, pos) =
       \<lparr> index = i + 1, original_word = word, pos_tag = pos,
         has_dictionary_definition = False,
         dictionary_action = str_upper ops word @ ''['' @ pos @ '']'',
         in_dictionary = False \<rparr>"
  by (simp add: normalized_word_def)

lemma create_word_details_nth:
  "k < length toks \<Longrightarrow>
     create_word_details ops d toks ! k = word_detail_of ops d k (toks ! k)"
  by (simp add: create_word_details_def enumerate_eq_zip)

declare sign_of.simps [simp del]

declare word_detail_of.simps [simp del]

lemma example_normalized:
  "normalized_word ascii_ops ''Toi'' = ''toi''"
  "normalized_word ascii_ops ''an'' = ''an''"
  "normalized_word ascii_ops ''com'' = ''com''"
  by (simp_all add: normalized_word_def ascii_lower_examples replace_space_def)

lemma example_lookups:
  "example_dictionary ''toi'' = Some ''TOI''"
  "example_dictionary ''an'' = None"
  "example_dictionary ''com'' = Some ''COM''"
  by (simp_all add: example_dictionary_def)

text \<open>
  Claim C1, as stated, fails in the core converter: its gloss sequence is made of the
  surface words. With \<open>toi\<close> stored as \<open>TOI\<close> the token \<open>Toi\<close> comes out as \<open>Toi\<close>, and the
  token \<open>an\<close>, which has no entry, comes out as \<open>an\<close>, not as \<open>AN\<close>.
\<close>

theorem core_gloss_sequence_counterexample:
  "basic_signs example_converter (normalized_word ascii_ops ''Toi'') = Some ''TOI''
   \<and> basic_signs example_converter (normalized_word ascii_ops ''an'') = None
   \<and> str_upper ascii_ops ''an'' = ''AN''
   \<and> map_sum id sign_language_sequence
        (convert_to_sign_language ascii_ops example_converter example_sentence) =
       Inr [''Toi'', ''com'', ''an'']"
proof -
  have "basic_signs example_converter = example_dictionary"
    by (simp add: example_converter_def)
  then show ?thesis
    by (simp add: example_core_sequence example_normalized example_lookups
        ascii_upper_examples)
qed

text \<open>
  Claim C1, amended. In the legacy converter each element of the gloss sequence is the
  stored gloss when the normalized word of the token at that place of the reordered
  sequence is a key of the dictionary, and the uppercased surface word otherwise; a word
  present under its normalized key is replaced by exactly the stored gloss. In the core
  converter the gloss sequence is the surface words of the reordered tokens, and a word
  present under its normalized key has exactly the stored gloss as the resolved gloss of
  its per-word detail.
\<close>

theorem gloss_sequence_substitution:
  "(\<forall>k < length toks.
      legacy_sign_sequence ops old toks ! k =
        (case sign_dictionary old (normalized_word ops
                (fst (legacy_reorder_for_sign_language (legacy_categorize_words toks) ! k))) of
           Some gloss \<Rightarrow> gloss
         | None \<Rightarrow> str_upper ops
                (fst (legacy_reorder_for_sign_language (legacy_categorize_words toks) ! k))))
   \<and> (\<forall>word pos gloss. d (normalized_word ops word) = Some gloss \<longrightarrow>
         convert_vocabulary ops d [(word, pos)] = [gloss])
   \<and> (case convert_to_sign_language ops self toks of
         Inl e \<Rightarrow> \<not> is_initialized self
       | Inr r \<Rightarrow> sign_language_sequence r =
                   map fst (reorder_for_sign_language (categorize_words ops toks)))
   \<and> (\<forall>k < length toks. \<forall>gloss.
         basic_signs self (normalized_word ops (fst (toks ! k))) = Some gloss \<longrightarrow>
         dictionary_action (create_word_details ops (basic_signs self) toks ! k) = gloss)"
proof -
  have a: "legacy_sign_sequence ops old toks ! k =
        (case sign_dictionary old (normalized_word ops
                (fst (legacy_reorder_for_sign_language (legacy_categorize_words toks) ! k))) of
           Some gloss \<Rightarrow> gloss
         | None \<Rightarrow> str_upper ops
                (fst (legacy_reorder_for_sign_language (legacy_categorize_words toks) ! k)))"
    if "k < length toks" for k
  proof -
    let ?r = "legacy_reorder_for_sign_language (legacy_categorize_words toks)"
    from that have k: "k < length ?r"
      by (simp add: length_legacy_reorder_categorize_words)
    obtain word pos where t: "?r ! k = (word, pos)" by (cases "?r ! k")
    from k show ?thesis
      by (simp add: legacy_sign_sequence_def convert_vocabulary_def t sign_of_eq
          cong: option.case_cong)
  qed
  have b: "convert_vocabulary ops d [(word, pos)] = [gloss]"
    if "d (normalized_word ops word) = Some gloss" for word pos gloss
    using that by (simp add: convert_vocabulary_def sign_of_eq)
  have c: "case convert_to_sign_language ops self toks of
         Inl e \<Rightarrow> \<not> is_initialized self
       | Inr r \<Rightarrow> sign_language_sequence r =
                   map fst (reorder_for_sign_language (categorize_words ops toks))"
    by (simp add: convert_cases)
  have e: "dictionary_action (create_word_details ops (basic_signs self) toks ! k) = gloss"
    if "k < length toks"
      and "basic_signs self (normalized_word ops (fst (toks ! k))) = Some gloss" for k gloss
  proof -
    obtain word pos where t: "toks ! k = (word, pos)" by (cases "toks ! k")
    from that show ?thesis
      by (simp add: create_word_details_nth t word_detail_hit)
  qed
  from a b c e show ?thesis by blast
qed

theorem gloss_sequence_substitution_witness:
  "legacy_sign_sequence ascii_ops example_legacy_converter example_sentence ! 0 = ''TOI''
   \<and> example_dictionary (normalized_word ascii_ops ''Toi'') = Some ''TOI''
   \<and> convert_vocabulary ascii_ops example_dictionary [(''Toi'', ''PRON'')] = [''TOI'']
   \<and> dictionary_action
        (create_word_details ascii_ops (basic_signs example_converter) example_sentence ! 0) =
       ''TOI''"
proof -
  note inst = gloss_sequence_substitution [where toks = example_sentence and ops = ascii_ops
      and old = example_legacy_converter and d = example_dictionary
      and self = example_converter]
  have len: "0 < length example_sentence" by (simp add: example_sentence_def)
  have hit: "example_dictionary (normalized_word ascii_ops ''Toi'') = Some ''TOI''"
    by (simp add: example_normalized example_lookups)
  have hit': "basic_signs example_converter
      (normalized_word ascii_ops (fst (example_sentence ! 0))) = Some ''TOI''"
    by (simp add: example_converter_def example_sentence_def hit)
  from inst [THEN conjunct2, THEN conjunct1, rule_format, OF hit]
  have a: "convert_vocabulary ascii_ops example_dictionary [(''Toi'', ''PRON'')] = [''TOI'']" .
  from inst [THEN conjunct2, THEN conjunct2, THEN conjunct2, rule_format, OF len hit']
  have b: "dictionary_action
        (create_word_details ascii_ops (basic_signs example_converter) example_sentence ! 0) =
       ''TOI''" .
  have c: "legacy_sign_sequence ascii_ops example_legacy_converter example_sentence ! 0 = ''TOI''"
    by (simp add: example_legacy_sequence)
  from a b c hit show ?thesis by simp
qed

text \<open>
  Claim C8, as stated, fails. Only the result of the core converter has both fields, and
  on a dictionary miss its gloss sequence carries the surface word as it is: for the
  token \<open>an\<close>, which has no entry, the gloss sequence is \<open>an\<close>, not \<open>AN\<close>, while the
  detail carries \<open>AN[VERB]\<close> with both flags false.
\<close>

theorem core_miss_keeps_word_counterexample:
  "basic_signs example_converter (normalized_word ascii_ops ''an'') = None
   \<and> str_upper ascii_ops ''an'' = ''AN''
   \<and> map_sum id sign_language_sequence
        (convert_to_sign_language ascii_ops example_converter unknown_word_sentence) =
       Inr [''an'']
   \<and> map_sum id word_details
        (convert_to_sign_language ascii_ops example_converter unknown_word_sentence) =
       Inr [\<lparr> index = 1, original_word = ''an'', pos_tag = ''VERB'',
              has_dictionary_definition = False, dictionary_action = ''AN[VERB]'',
              in_dictionary = False \<rparr>]"
proof -
  have d: "basic_signs example_converter = example_dictionary"
    and i: "is_initialized example_converter"
    by (simp_all add: example_converter_def)
  have miss: "example_dictionary (normalized_word ascii_ops ''an'') = None"
    by (simp add: example_normalized example_lookups)
  have c: "categorize_words ascii_ops unknown_word_sentence =
             empty_categories\<lparr>verbs := [(''an'', ''VERB'')]\<rparr>"
    by (simp add: categorize_words_def unknown_word_sentence_def categorize_step_def
        empty_categories_def)
  have w: "create_word_details ascii_ops example_dictionary unknown_word_sentence =
             [word_detail_of ascii_ops example_dictionary 0 (''an'', ''VERB'')]"
    by (simp add: create_word_details_def unknown_word_sentence_def enumerate_eq_zip)
  have m: "word_detail_of ascii_ops example_dictionary 0 (''an'', ''VERB'') =
       \<lparr> index = 1, original_word = ''an'', pos_tag = ''VERB'',
         has_dictionary_definition = False, dictionary_action = ''AN[VERB]'',
         in_dictionary = False \<rparr>"
    using miss by (simp add: word_detail_miss ascii_upper_examples)
  from d i miss show ?thesis
    by (simp add: convert_cases c w m ascii_upper_examples
        reorder_for_sign_language_def empty_categories_def)
qed

text \<open>
  Claim C8, amended. The two fallback formats come from different converters and are
  never equal. On a dictionary miss the gloss sequence of the legacy converter carries
  the uppercased surface word. In the result of the core converter the gloss sequence
  carries the surface words as they are, and the per-word detail of a token carries, on a
  miss, the uppercased word followed by the tag in brackets with both dictionary flags
  false, and on a hit the stored gloss with both flags true.
\<close>

theorem fallback_formats_by_converter:
  "(\<forall>k < length toks.
      sign_dictionary old (normalized_word ops
         (fst (legacy_reorder_for_sign_language (legacy_categorize_words toks) ! k))) = None \<longrightarrow>
      legacy_sign_sequence ops old toks ! k =
        str_upper ops (fst (legacy_reorder_for_sign_language (legacy_categorize_words toks) ! k)))
   \<and> (case convert_to_sign_language ops self toks of
         Inl e \<Rightarrow> \<not> is_initialized self
       | Inr r \<Rightarrow>
           sign_language_sequence r =
             map fst (reorder_for_sign_language (categorize_words ops toks))
           \<and> length (word_details r) = length toks
           \<and> (\<forall>k < length toks.
                 basic_signs self (normalized_word ops (fst (toks ! k))) = None \<longrightarrow>
                 dictionary_action (word_details r ! k) =
                   str_upper ops (fst (toks ! k)) @ ''['' @ snd (toks ! k) @ '']''
                 \<and> \<not> has_dictionary_definition (word_details r ! k)
                 \<and> \<not> in_dictionary (word_details r ! k))
           \<and> (\<forall>k < length toks. \<forall>gloss.
                 basic_signs self (normalized_word ops (fst (toks ! k))) = Some gloss \<longrightarrow>
                 dictionary_action (word_details r ! k) = gloss
                 \<and> has_dictionary_definition (word_details r ! k)
                 \<and> in_dictionary (word_details r ! k)))
   \<and> (\<forall>word pos. str_upper ops word @ ''['' @ pos @ '']'' \<noteq> str_upper ops word)"
proof -
  let ?ds = "create_word_details ops (basic_signs self) toks"
  have a: "legacy_sign_sequence ops old toks ! k =
        str_upper ops (fst (legacy_reorder_for_sign_language (legacy_categorize_words toks) ! k))"
    if "k < length toks"
      and "sign_dictionary old (normalized_word ops
         (fst (legacy_reorder_for_sign_language (legacy_categorize_words toks) ! k))) = None"
    for k
  proof -
    let ?r = "legacy_reorder_for_sign_language (legacy_categorize_words toks)"
    from that(1) have k: "k < length ?r"
      by (simp add: length_legacy_reorder_categorize_words)
    obtain word pos where t: "?r ! k = (word, pos)" by (cases "?r ! k")
    from k that(2) show ?thesis
      by (simp add: legacy_sign_sequence_def convert_vocabulary_def t sign_of_eq)
  qed
  have b: "dictionary_action (?ds ! k) =
          str_upper ops (fst (toks ! k)) @ ''['' @ snd (toks ! k) @ '']''
        \<and> \<not> has_dictionary_definition (?ds ! k) \<and> \<not> in_dictionary (?ds ! k)"
    if "k < length toks"
      and "basic_signs self (normalized_word ops (fst (toks ! k))) = None" for k
  proof -
    obtain word pos where t: "toks ! k = (word, pos)" by (cases "toks ! k")
    from that show ?thesis by (simp add: create_word_details_nth t word_detail_miss)
  qed
  have c: "dictionary_action (?ds ! k) = gloss
        \<and> has_dictionary_definition (?ds ! k) \<and> in_dictionary (?ds ! k)"
    if "k < length toks"
      and "basic_signs self (normalized_word ops (fst (toks ! k))) = Some gloss" for k gloss
  proof -
    obtain word pos where t: "toks ! k = (word, pos)" by (cases "toks ! k")
    from that show ?thesis by (simp add: create_word_details_nth t word_detail_hit)
  qed
  have l: "length ?ds = length toks"
    by (simp add: create_word_details_def)
  have core: "case convert_to_sign_language ops self toks of
         Inl e \<Rightarrow> \<not> is_initialized self
       | Inr r \<Rightarrow>
           sign_language_sequence r =
             map fst (reorder_for_sign_language (categorize_words ops toks))
           \<and> length (word_details r) = length toks
           \<and> (\<forall>k < length toks.
                 basic_signs self (normalized_word ops (fst (toks ! k))) = None \<longrightarrow>
                 dictionary_action (word_details r ! k) =
                   str_upper ops (fst (toks ! k)) @ ''['' @ snd (toks ! k) @ '']''
                 \<and> \<not> has_dictionary_definition (word_details r ! k)
                 \<and> \<not> in_dictionary (word_details r ! k))
           \<and> (\<forall>k < length toks. \<forall>gloss.
                 basic_signs self (normalized_word ops (fst (toks ! k))) = Some gloss \<longrightarrow>
                 dictionary_action (word_details r ! k) = gloss
                 \<and> has_dictionary_definition (word_details r ! k)
                 \<and> in_dictionary (word_details r ! k))"
  proof (cases "is_initialized self")
    case True
    with b c l show ?thesis by (simp add: convert_cases)
  next
    case False
    then show ?thesis by (simp add: convert_cases)
  qed
  have d: "str_upper ops word @ ''['' @ pos @ '']'' \<noteq> str_upper ops word" for word pos
    by simp
  from a core d show ?thesis by blast
qed

theorem fallback_formats_by_converter_witness:
  "legacy_sign_sequence ascii_ops example_legacy_converter example_sentence ! 2 = ''AN''
   \<and> map_sum id sign_language_sequence
        (convert_to_sign_language ascii_ops example_converter example_sentence) =
       Inr [''Toi'', ''com'', ''an'']
   \<and> map_sum id (\<lambda>r. dictionary_action (word_details r ! 1))
        (convert_to_sign_language ascii_ops example_converter example_sentence) =
       Inr ''AN[VERB]''
   \<and> map_sum id (\<lambda>r. in_dictionary (word_details r ! 1))
        (convert_to_sign_language ascii_ops example_converter example_sentence) =
       Inr False
   \<and> map_sum id (\<lambda>r. dictionary_action (word_details r ! 0))
        (convert_to_sign_language ascii_ops example_converter example_sentence) =
       Inr ''TOI''
   \<and> map_sum id (\<lambda>r. in_dictionary (word_details r ! 0))
        (convert_to_sign_language ascii_ops example_converter example_sentence) =
       Inr True"
proof -
  note inst = fallback_formats_by_converter [where toks = example_sentence
      and ops = ascii_ops and old = example_legacy_converter and self = example_converter]
  have init: "is_initialized example_converter" by (simp add: example_converter_def)
  obtain r where r: "convert_to_sign_language ascii_ops example_converter example_sentence = Inr r"
    using init by (simp add: convert_cases)
  have k0: "0 < length example_sentence" and k1: "1 < length example_sentence"
    and k2: "2 < length example_sentence"
    by (simp_all add: example_sentence_def)
  have reordered: "legacy_reorder_for_sign_language (legacy_categorize_words example_sentence) ! 2
      = (''an'', ''VERB'')"
    by (simp add: example_legacy_categorized legacy_reorder_for_sign_language_def
        legacy_empty_categories_def)
  have miss_old: "sign_dictionary example_legacy_converter (normalized_word ascii_ops
      (fst (legacy_reorder_for_sign_language (legacy_categorize_words example_sentence) ! 2)))
      = None"
    by (simp add: reordered example_legacy_converter_def example_normalized example_lookups)
  have t0: "example_sentence ! 0 = (''Toi'', ''PRON'')"
    and t1: "example_sentence ! Suc 0 = (''an'', ''VERB'')"
    by (simp_all add: example_sentence_def)
  have miss: "basic_signs example_converter
      (normalized_word ascii_ops (fst (example_sentence ! 1))) = None"
    by (simp add: t1 example_converter_def example_normalized example_lookups)
  have hit: "basic_signs example_converter
      (normalized_word ascii_ops (fst (example_sentence ! 0))) = Some ''TOI''"
    by (simp add: t0 example_converter_def example_normalized example_lookups)
  from inst [THEN conjunct1, rule_format, OF k2 miss_old]
  have a: "legacy_sign_sequence ascii_ops example_legacy_converter example_sentence ! 2 = ''AN''"
    by (simp add: reordered ascii_upper_examples)
  note core = inst [THEN conjunct2, THEN conjunct1, unfolded r, simplified]
  from core [THEN conjunct2, THEN conjunct2, THEN conjunct1, rule_format, OF k1 miss]
  have b: "dictionary_action (word_details r ! 1) = ''AN[VERB]''"
    "\<not> in_dictionary (word_details r ! 1)"
    by (simp_all add: t1 ascii_upper_examples)
  from core [THEN conjunct2, THEN conjunct2, THEN conjunct2, rule_format, OF k0 hit]
  have c: "dictionary_action (word_details r ! 0) = ''TOI''" "in_dictionary (word_details r ! 0)"
    by simp_all
  from example_core_sequence have s: "sign_language_sequence r = [''Toi'', ''com'', ''an'']"
    by (simp add: r)
  from a b c s show ?thesis by (simp add: r)
qed

text \<open>
  Claim C9. A conversion request returns the failure exactly when the converter is not
  initialized, and a result otherwise, for every token sequence; a converter that was
  constructed is initialized. For the empty sequence the result has an empty gloss
  sequence, empty buckets and all counts zero.
\<close>

theorem conversion_fails_only_uninitialized:
  "(convert_to_sign_language ops self toks = Inl Not_Initialized) = (\<not> is_initialized self)
   \<and> (\<exists>r. convert_to_sign_language ops self toks = Inr r) = is_initialized self
   \<and> (\<exists>r. convert_to_sign_language ops (init_converter ops src) toks = Inr r)
   \<and> convert_to_sign_language ops (self\<lparr>is_initialized := True\<rparr>) [] =
       Inr \<lparr> original_sentence = [],
             sign_language_sequence = [],
             structure_analysis =
               \<lparr> word_count = 0, reordered_count = 0, count_subjects = 0, count_verbs = 0,
                 count_objects = 0, count_adjectives = 0, count_time_expressions = 0,
                 count_others = 0, conversion_applied = True \<rparr>,
             pos_analysis = empty_categories,
             word_details = [] \<rparr>"
  by (simp add: convert_cases init_converter_def categorize_words_def
      reorder_for_sign_language_def create_analysis_def create_word_details_def
      empty_categories_def)

theorem conversion_fails_only_uninitialized_witness:
  "(\<exists>r. convert_to_sign_language ascii_ops example_converter example_sentence = Inr r)
   \<and> convert_to_sign_language ascii_ops (example_converter\<lparr>is_initialized := False\<rparr>)
       example_sentence = Inl Not_Initialized
   \<and> map_sum id sign_language_sequence
       (convert_to_sign_language ascii_ops (example_converter\<lparr>is_initialized := True\<rparr>) []) =
       Inr []"
proof -
  note a = conversion_fails_only_uninitialized [where ops = ascii_ops
      and self = example_converter and toks = example_sentence]
  note b = conversion_fails_only_uninitialized [where ops = ascii_ops
      and self = "example_converter\<lparr>is_initialized := False\<rparr>" and toks = example_sentence]
  note c = conversion_fails_only_uninitialized [where ops = ascii_ops
      and self = example_converter]
  have i: "is_initialized example_converter" by (simp add: example_converter_def)
  from a i have 1: "\<exists>r. convert_to_sign_language ascii_ops example_converter example_sentence = Inr r"
    by simp
  from b have 2: "convert_to_sign_language ascii_ops
      (example_converter\<lparr>is_initialized := False\<rparr>) example_sentence = Inl Not_Initialized"
    by simp
  from c [THEN conjunct2, THEN conjunct2, THEN conjunct2]
  have 3: "map_sum id sign_language_sequence
       (convert_to_sign_language ascii_ops (example_converter\<lparr>is_initialized := True\<rparr>) []) =
       Inr []"
    by simp
  from 1 2 3 show ?thesis by simp
qed

section \<open>Loading the dictionary\<close>

lemma replace_space_no_space: "CHR '' '' \<notin> set (replace_space s)"
  by (induction s) (simp_all add: replace_space_def)

lemma replace_space_id: "CHR '' '' \<notin> set s \<Longrightarrow> replace_space s = s"
  by (induction s) (auto simp add: replace_space_def)

lemma reachable_no_space: "reachable ops key \<Longrightarrow> CHR '' '' \<notin> set key"
  by (auto simp add: reachable_def normalized_word_def replace_space_no_space)

lemma normalized_word_of_key:
  "CHR '' '' \<notin> set (str_lower ops w) \<Longrightarrow> normalized_word ops w = str_lower ops w"
  by (simp add: normalized_word_def replace_space_id)

lemma load_line_eq:
  "load_line ops d raw =
     (if core_entry_line ops raw
      then d(str_lower ops (line_word ops raw) \<mapsto> str_upper ops (line_sign ops raw)) else d)"
  by (simp add: load_line_def core_entry_line_def well_formed_line_def line_word_def
      line_sign_def Let_def)

lemma legacy_load_line_eq:
  "legacy_load_line ops d raw =
     (if legacy_entry_line ops raw
      then d(line_word ops raw \<mapsto> line_sign ops raw) else d)"
  by (simp add: legacy_load_line_def legacy_entry_line_def well_formed_line_def line_word_def
      line_sign_def Let_def)

text \<open>A loop that stores the entry of every entry line, later lines overwriting earlier ones.\<close>

lemma foldl_entries_Some:
  assumes "\<And>d raw. f d raw = (if P raw then d(K raw \<mapsto> V raw) else d)"
    and "foldl f d ls key = Some g"
  shows "d key = Some g \<or> (\<exists>raw \<in> set ls. P raw \<and> key = K raw \<and> g = V raw)"
  using assms(2)
proof (induction ls arbitrary: d)
  case Nil
  then show ?case by simp
next
  case (Cons l ls)
  from Cons.prems have "foldl f (f d l) ls key = Some g" by simp
  from Cons.IH [OF this] show ?case
    by (auto simp add: assms(1) split: if_splits)
qed

lemma foldl_entries_other:
  assumes "\<And>d raw. f d raw = (if P raw then d(K raw \<mapsto> V raw) else d)"
    and "\<forall>r \<in> set ys. P r \<longrightarrow> K r \<noteq> k"
  shows "foldl f d ys k = d k"
  using assms(2) by (induction ys arbitrary: d) (auto simp add: assms(1))

lemma foldl_entries_last:
  assumes "\<And>d raw. f d raw = (if P raw then d(K raw \<mapsto> V raw) else d)"
    and "P raw" and "\<forall>r \<in> set ys. P r \<longrightarrow> K r \<noteq> K raw"
  shows "foldl f d (xs @ raw # ys) (K raw) = Some (V raw)"
  using assms(2) by (simp add: foldl_entries_other [OF assms(1) assms(3)] assms(1))

lemma foldl_entries_dom_mono:
  assumes "\<And>d raw. f d raw = (if P raw then d(K raw \<mapsto> V raw) else d)"
    and "k \<in> dom d"
  shows "k \<in> dom (foldl f d ls)"
  using assms(2) by (induction ls arbitrary: d) (simp_all add: assms(1))

lemma foldl_entries_dom:
  assumes "\<And>d raw. f d raw = (if P raw then d(K raw \<mapsto> V raw) else d)"
    and "raw \<in> set ls" and "P raw"
  shows "K raw \<in> dom (foldl f d ls)"
proof -
  from assms(2) obtain xs ys where ls: "ls = xs @ raw # ys" by (auto simp add: in_set_conv_decomp)
  have "K raw \<in> dom (f (foldl f d xs) raw)"
    using assms(3) by (simp add: assms(1))
  from foldl_entries_dom_mono [OF assms(1) this, where ls = ys] show ?thesis
    by (simp add: ls)
qed

lemma foldl_skipped_lines:
  "\<forall>l \<in> set ls. \<forall>d. load_line ops d l = d \<Longrightarrow> foldl (load_line ops) d ls = d"
  by (induction ls arbitrary: d) simp_all

lemma fallback_has_entry: "get_fallback_dictionary ''ba'' = Some ''3''"
  by (simp add: get_fallback_dictionary_def)

lemma fallback_not_empty: "dom get_fallback_dictionary \<noteq> {}"
proof -
  have "''ba'' \<in> dom get_fallback_dictionary"
    using fallback_has_entry by (rule domI)
  then show ?thesis by blast
qed

lemmas ascii_eval =
  ascii_ops_def ascii_strip_def ascii_space_def ascii_lower_char_def ascii_upper_char_def
  before_eq_def after_eq_def Let_def

lemma comment_only_skipped:
  "\<forall>l \<in> set comment_only_file. \<forall>d. load_line ascii_ops d l = d"
  by (simp add: comment_only_file_def load_line_def ascii_eval)

lemma spaced_key_loaded:
  "load_dictionary_from_file ascii_ops (Available spaced_key_file) =
     [''chung toi'' \<mapsto> ''CHUNG-TOI'']"
  by (simp add: load_dictionary_from_file_def spaced_key_file_def load_line_def ascii_eval)

lemma joined_key_loaded:
  "load_dictionary_from_file ascii_ops (Available joined_key_file) =
     [''chung_toi'' \<mapsto> ''CHUNG-TOI'']"
  by (simp add: load_dictionary_from_file_def joined_key_file_def load_line_def ascii_eval)

lemma capital_key_loaded:
  "legacy_load_dictionary_from_file ascii_ops (Available capital_key_file) =
     [''Toi'' \<mapsto> ''TOI'']"
  by (simp add: legacy_load_dictionary_from_file_def capital_key_file_def legacy_load_line_def
      ascii_eval)

text \<open>
  Claim C6, as stated, fails. The core loader returns an empty dictionary for a file that
  exists and yields no entry (an empty file, or one with comments and blank lines only),
  and the legacy loader returns an empty dictionary when the file is missing: it has no
  seed mapping.
\<close>

theorem load_never_empty_counterexample:
  "dom (load_dictionary_from_file ascii_ops (Available [])) = {}
   \<and> dom (load_dictionary_from_file ascii_ops (Available comment_only_file)) = {}
   \<and> dom (legacy_load_dictionary_from_file ascii_ops Missing) = {}"
  by (simp add: load_dictionary_from_file_def legacy_load_dictionary_from_file_def
      foldl_skipped_lines [OF comment_only_skipped])

text \<open>
  Claim C6, amended. In the core converter, when the dictionary file is missing or loading
  it raises, loading returns the built-in seed mapping, which is not empty, and the
  converter is constructed with it. A file that is read to its end is loaded as it is: if
  none of its lines yields an entry, the dictionary is empty. The legacy loader returns
  the entries read before the failure, none for a missing file.
\<close>

theorem load_falls_back_on_failure:
  "load_dictionary_from_file ops Missing = get_fallback_dictionary
   \<and> load_dictionary_from_file ops (Failing ls) = get_fallback_dictionary
   \<and> basic_signs (init_converter ops Missing) = get_fallback_dictionary
   \<and> basic_signs (init_converter ops (Failing ls)) = get_fallback_dictionary
   \<and> dom get_fallback_dictionary \<noteq> {}
   \<and> ((\<forall>l \<in> set ls. \<forall>d. load_line ops d l = d) \<longrightarrow>
        dom (load_dictionary_from_file ops (Available ls)) = {})
   \<and> dom (legacy_load_dictionary_from_file ops Missing) = {}
   \<and> legacy_load_dictionary_from_file ops (Failing ls) =
       foldl (legacy_load_line ops) Map.empty ls"
  using fallback_not_empty
  by (simp add: load_dictionary_from_file_def legacy_load_dictionary_from_file_def
      init_converter_def foldl_skipped_lines)

theorem load_falls_back_on_failure_witness:
  "load_line ascii_ops Map.empty (comment_only_file ! 0) = Map.empty
   \<and> dom (load_dictionary_from_file ascii_ops (Available comment_only_file)) = {}
   \<and> load_dictionary_from_file ascii_ops (Failing comment_only_file) ''ba'' = Some ''3''"
proof -
  note inst = load_falls_back_on_failure [where ops = ascii_ops and ls = comment_only_file]
  from inst [THEN conjunct2, THEN conjunct2, THEN conjunct2, THEN conjunct2, THEN conjunct2,
      THEN conjunct1] comment_only_skipped
  have a: "dom (load_dictionary_from_file ascii_ops (Available comment_only_file)) = {}"
    by blast
  from inst [THEN conjunct2, THEN conjunct1] fallback_has_entry
  have b: "load_dictionary_from_file ascii_ops (Failing comment_only_file) ''ba'' = Some ''3''"
    by simp
  have c: "load_line ascii_ops Map.empty (comment_only_file ! 0) = Map.empty"
    using comment_only_skipped by (simp add: comment_only_file_def)
  from a b c show ?thesis by simp
qed

text \<open>
  Claim C7, as stated, fails. The core loader keeps the space inside a key: the line
  \<open>chung toi = CHUNG-TOI\<close> is stored under \<open>chung toi\<close>, while the word \<open>chung toi\<close> is
  looked up under \<open>chung_toi\<close>, so no lookup reaches the entry. The legacy loader does not
  lowercase either: the line \<open>Toi = TOI\<close> is stored under \<open>Toi\<close>, and the word \<open>Toi\<close> is
  looked up under \<open>toi\<close>.
\<close>

theorem keys_normalized_at_load_counterexample:
  "load_dictionary_from_file ascii_ops (Available spaced_key_file) ''chung toi'' =
     Some ''CHUNG-TOI''
   \<and> normalized_word ascii_ops ''chung toi'' = ''chung_toi''
   \<and> load_dictionary_from_file ascii_ops (Available spaced_key_file) ''chung_toi'' = None
   \<and> \<not> reachable ascii_ops ''chung toi''
   \<and> legacy_load_dictionary_from_file ascii_ops (Available capital_key_file) ''Toi'' =
       Some ''TOI''
   \<and> normalized_word ascii_ops ''Toi'' = ''toi''
   \<and> legacy_load_dictionary_from_file ascii_ops (Available capital_key_file) ''toi'' = None"
proof -
  have "\<not> reachable ascii_ops ''chung toi''"
    using reachable_no_space [of ascii_ops "''chung toi''"] by auto
  moreover have "normalized_word ascii_ops ''chung toi'' = ''chung_toi''"
    by (simp add: normalized_word_def replace_space_def ascii_ops_def ascii_lower_char_def)
  ultimately show ?thesis
    by (simp add: spaced_key_loaded capital_key_loaded example_normalized)
qed

text \<open>
  Claim C7, amended. At load time the core loader strips and lowercases the word and
  strips and uppercases the sign of every entry line, and stores the sign under the word
  so treated, a later line overwriting an earlier one with the same key; the legacy
  loader only strips both. The loaded mapping holds exactly the entries of the entry
  lines. An entry whose key contains no space (and, in the legacy loader, is unchanged by
  lowercasing) is stored under exactly the normalized form that substitution computes for
  the word of its line, so lookup of that word finds it; every key of the mapping loaded
  by the core loader that contains no space is reachable by lookup.
\<close>

theorem loaded_entries_normalized_without_space:
  "(\<forall>key gloss. load_dictionary_from_file ops (Available ls) key = Some gloss \<longrightarrow>
      (\<exists>raw \<in> set ls. core_entry_line ops raw \<and> key = str_lower ops (line_word ops raw)
                       \<and> gloss = str_upper ops (line_sign ops raw)))
   \<and> (\<forall>raw \<in> set ls. core_entry_line ops raw \<longrightarrow>
        str_lower ops (line_word ops raw) \<in> dom (load_dictionary_from_file ops (Available ls)))
   \<and> (\<forall>xs raw ys. ls = xs @ raw # ys \<and> core_entry_line ops raw
        \<and> (\<forall>r \<in> set ys. core_entry_line ops r \<longrightarrow>
              str_lower ops (line_word ops r) \<noteq> str_lower ops (line_word ops raw)) \<longrightarrow>
        load_dictionary_from_file ops (Available ls) (str_lower ops (line_word ops raw)) =
          Some (str_upper ops (line_sign ops raw)))
   \<and> (\<forall>raw \<in> set ls. core_entry_line ops raw
        \<and> CHR '' '' \<notin> set (str_lower ops (line_word ops raw)) \<longrightarrow>
        normalized_word ops (line_word ops raw) = str_lower ops (line_word ops raw)
        \<and> normalized_word ops (line_word ops raw)
            \<in> dom (load_dictionary_from_file ops (Available ls)))
   \<and> (\<forall>key \<in> dom (load_dictionary_from_file ops (Available ls)).
        CHR '' '' \<notin> set key \<longrightarrow> reachable ops key)
   \<and> (\<forall>key gloss. legacy_load_dictionary_from_file ops (Available ls) key = Some gloss \<longrightarrow>
        (\<exists>raw \<in> set ls. legacy_entry_line ops raw \<and> key = line_word ops raw
                         \<and> gloss = line_sign ops raw))
   \<and> (\<forall>xs raw ys. ls = xs @ raw # ys \<and> legacy_entry_line ops raw
        \<and> (\<forall>r \<in> set ys. legacy_entry_line ops r \<longrightarrow> line_word ops r \<noteq> line_word ops raw) \<longrightarrow>
        legacy_load_dictionary_from_file ops (Available ls) (line_word ops raw) =
          Some (line_sign ops raw))
   \<and> (\<forall>raw \<in> set ls. legacy_entry_line ops raw
        \<and> CHR '' '' \<notin> set (line_word ops raw)
        \<and> str_lower ops (line_word ops raw) = line_word ops raw \<longrightarrow>
        normalized_word ops (line_word ops raw) = line_word ops raw
        \<and> normalized_word ops (line_word ops raw)
            \<in> dom (legacy_load_dictionary_from_file ops (Available ls)))"
proof -
  let ?core = "load_dictionary_from_file ops (Available ls)"
  let ?legacy = "legacy_load_dictionary_from_file ops (Available ls)"
  have core_def: "?core = foldl (load_line ops) Map.empty ls"
    by (simp add: load_dictionary_from_file_def)
  have legacy_def: "?legacy = foldl (legacy_load_line ops) Map.empty ls"
    by (simp add: legacy_load_dictionary_from_file_def)
  note core_Some = foldl_entries_Some [where f = "load_line ops" and P = "core_entry_line ops"
      and K = "\<lambda>r. str_lower ops (line_word ops r)"
      and V = "\<lambda>r. str_upper ops (line_sign ops r)", OF load_line_eq]
  note core_dom = foldl_entries_dom [where f = "load_line ops" and P = "core_entry_line ops"
      and K = "\<lambda>r. str_lower ops (line_word ops r)"
      and V = "\<lambda>r. str_upper ops (line_sign ops r)", OF load_line_eq]
  note core_last = foldl_entries_last [where f = "load_line ops" and P = "core_entry_line ops"
      and K = "\<lambda>r. str_lower ops (line_word ops r)"
      and V = "\<lambda>r. str_upper ops (line_sign ops r)", OF load_line_eq]
  note legacy_Some = foldl_entries_Some [where f = "legacy_load_line ops"
      and P = "legacy_entry_line ops" and K = "line_word ops" and V = "line_sign ops",
      OF legacy_load_line_eq]
  note legacy_dom = foldl_entries_dom [where f = "legacy_load_line ops"
      and P = "legacy_entry_line ops" and K = "line_word ops" and V = "line_sign ops",
      OF legacy_load_line_eq]
  note legacy_last = foldl_entries_last [where f = "legacy_load_line ops"
      and P = "legacy_entry_line ops" and K = "line_word ops" and V = "line_sign ops",
      OF legacy_load_line_eq]
  have a: "\<exists>raw \<in> set ls. core_entry_line ops raw \<and> key = str_lower ops (line_word ops raw)
                       \<and> gloss = str_upper ops (line_sign ops raw)"
    if "?core key = Some gloss" for key gloss
    using core_Some [OF that [unfolded core_def]] by simp
  have b: "str_lower ops (line_word ops raw) \<in> dom ?core"
    if "raw \<in> set ls" and "core_entry_line ops raw" for raw
    unfolding core_def by (rule core_dom [OF that])
  have c: "?core (str_lower ops (line_word ops raw)) = Some (str_upper ops (line_sign ops raw))"
    if "ls = xs @ raw # ys" and "core_entry_line ops raw"
      and "\<forall>r \<in> set ys. core_entry_line ops r \<longrightarrow>
              str_lower ops (line_word ops r) \<noteq> str_lower ops (line_word ops raw)"
    for xs raw ys
    using core_last [OF that(2) that(3), where d = Map.empty and xs = xs]
    by (simp add: load_dictionary_from_file_def that(1))
  have d: "normalized_word ops (line_word ops raw) = str_lower ops (line_word ops raw)
        \<and> normalized_word ops (line_word ops raw) \<in> dom ?core"
    if "raw \<in> set ls" and "core_entry_line ops raw"
      and "CHR '' '' \<notin> set (str_lower ops (line_word ops raw))" for raw
    using b [OF that(1) that(2)] normalized_word_of_key [OF that(3)] by simp
  have e: "reachable ops key" if "key \<in> dom ?core" and "CHR '' '' \<notin> set key" for key
  proof -
    from that(1) obtain gloss where "?core key = Some gloss" by auto
    from a [OF this] obtain raw where "key = str_lower ops (line_word ops raw)" by auto
    with that(2) normalized_word_of_key [of ops "line_word ops raw"] show ?thesis
      by (auto simp add: reachable_def)
  qed
  have a': "\<exists>raw \<in> set ls. legacy_entry_line ops raw \<and> key = line_word ops raw
                         \<and> gloss = line_sign ops raw"
    if "?legacy key = Some gloss" for key gloss
    using legacy_Some [OF that [unfolded legacy_def]] by simp
  have b': "line_word ops raw \<in> dom ?legacy"
    if "raw \<in> set ls" and "legacy_entry_line ops raw" for raw
    unfolding legacy_def by (rule legacy_dom [OF that])
  have c': "?legacy (line_word ops raw) = Some (line_sign ops raw)"
    if "ls = xs @ raw # ys" and "legacy_entry_line ops raw"
      and "\<forall>r \<in> set ys. legacy_entry_line ops r \<longrightarrow> line_word ops r \<noteq> line_word ops raw"
    for xs raw ys
    using legacy_last [OF that(2) that(3), where d = Map.empty and xs = xs]
    by (simp add: legacy_load_dictionary_from_file_def that(1))
  have d': "normalized_word ops (line_word ops raw) = line_word ops raw
        \<and> normalized_word ops (line_word ops raw) \<in> dom ?legacy"
    if "raw \<in> set ls" and "legacy_entry_line ops raw"
      and "CHR '' '' \<notin> set (line_word ops raw)"
      and "str_lower ops (line_word ops raw) = line_word ops raw" for raw
    using b' [OF that(1) that(2)] normalized_word_of_key [of ops "line_word ops raw"] that(3,4)
    by simp
  show ?thesis
    apply (intro conjI allI ballI impI)
    subgoal for key gloss by (rule a)
    subgoal for raw by (rule b)
    subgoal for xs raw ys using c [of xs raw ys] by blast
    subgoal for raw using d [of raw] by blast
    subgoal for raw using d [of raw] by blast
    subgoal for key by (rule e)
    subgoal for key gloss by (rule a')
    subgoal for xs raw ys using c' [of xs raw ys] by blast
    subgoal for raw using d' [of raw] by blast
    subgoal for raw using d' [of raw] by blast
    done
qed

theorem loaded_entries_normalized_without_space_witness:
  "core_entry_line ascii_ops (joined_key_file ! 0)
   \<and> str_lower ascii_ops (line_word ascii_ops (joined_key_file ! 0)) = ''chung_toi''
   \<and> normalized_word ascii_ops (line_word ascii_ops (joined_key_file ! 0)) = ''chung_toi''
   \<and> load_dictionary_from_file ascii_ops (Available joined_key_file) ''chung_toi'' =
       Some ''CHUNG-TOI''
   \<and> reachable ascii_ops ''chung_toi''"
proof -
  note inst = loaded_entries_normalized_without_space [where ops = ascii_ops
      and ls = joined_key_file]
  have raw: "joined_key_file ! 0 \<in> set joined_key_file"
    and ls: "joined_key_file = [] @ (joined_key_file ! 0) # []"
    by (simp_all add: joined_key_file_def)
  have w: "line_word ascii_ops (joined_key_file ! 0) = ''chung_toi''"
    and g: "line_sign ascii_ops (joined_key_file ! 0) = ''CHUNG-TOI''"
    by (simp_all add: joined_key_file_def line_word_def line_sign_def ascii_eval)
  have lw: "str_lower ascii_ops ''chung_toi'' = ''chung_toi''"
    and ug: "str_upper ascii_ops ''CHUNG-TOI'' = ''CHUNG-TOI''"
    by (simp_all add: ascii_ops_def ascii_lower_char_def ascii_upper_char_def)
  have entry: "core_entry_line ascii_ops (joined_key_file ! 0)"
    unfolding core_entry_line_def w g lw ug
    by (simp add: well_formed_line_def joined_key_file_def ascii_eval)
  have nospace: "CHR '' '' \<notin> set (str_lower ascii_ops (line_word ascii_ops (joined_key_file ! 0)))"
    by (simp add: w lw)
  from inst [THEN conjunct2, THEN conjunct2, THEN conjunct1, rule_format, of "[]"
      "joined_key_file ! 0" "[]"] ls entry
  have stored: "load_dictionary_from_file ascii_ops (Available joined_key_file) ''chung_toi'' =
       Some ''CHUNG-TOI''"
    by (simp add: w g lw ug)
  from inst [THEN conjunct2, THEN conjunct2, THEN conjunct2, THEN conjunct1, rule_format,
      OF raw] entry nospace
  have norm: "normalized_word ascii_ops (line_word ascii_ops (joined_key_file ! 0)) = ''chung_toi''"
    by (simp add: w lw)
  from stored have "''chung_toi'' \<in> dom (load_dictionary_from_file ascii_ops (Available joined_key_file))"
    by auto
  from inst [THEN conjunct2, THEN conjunct2, THEN conjunct2, THEN conjunct2, THEN conjunct1,
      rule_format, OF this]
  have reach: "reachable ascii_ops ''chung_toi''" by simp
  from entry stored norm reach show ?thesis by (simp add: w lw)
qed

end
